theory Spec2Isabelle
  imports Complex_Main "HOL-Library.Word"
begin

section \<open>JavaScript strings\<close>

text \<open>
  The strings of a request are modelled as Isabelle \<open>string\<close>s; a \<open>char\<close> stands for the
  UTF-16 code unit of the same number, and the String methods applied to them are
  modelled on the ASCII range: \<open>trim\<close> and the regular-expression class \<open>\s\<close> know the
  six ASCII white-space characters (TAB, LF, VT, FF, CR, SPACE), and \<open>toLowerCase\<close> maps
  the letters \<open>A..Z\<close>. \<open>length\<close> counts code units, as \<open>.length\<close> does. The text that the
  classifier returns is modelled in full, as a list of 16-bit code units (see below).
\<close>

definition isWhiteSpace :: "char \<Rightarrow> bool" where
  "isWhiteSpace c \<longleftrightarrow>
     c = CHR 0x09 \<or> c = CHR 0x0A \<or> c = CHR 0x0B \<or> c = CHR 0x0C \<or> c = CHR 0x0D \<or> c = CHR 0x20"

definition lowerLetters :: string where
  "lowerLetters = ''abcdefghijklmnopqrstuvwxyz''"

definition upperLetters :: string where
  "upperLetters = ''ABCDEFGHIJKLMNOPQRSTUVWXYZ''"

definition toLowerChar :: "char \<Rightarrow> char" where
  "toLowerChar c = (case map_of (zip upperLetters lowerLetters) c of Some l \<Rightarrow> l | None \<Rightarrow> c)"

definition toLowerCase :: "string \<Rightarrow> string" where
  "toLowerCase s = map toLowerChar s"

text \<open>\<open>s.trim()\<close>: white space is removed from both ends.\<close>

definition trim :: "string \<Rightarrow> string" where
  "trim s = rev (dropWhile isWhiteSpace (rev (dropWhile isWhiteSpace s)))"

text \<open>\<open>s.includes(t)\<close>: \<open>t\<close> occurs in \<open>s\<close> as a contiguous run of code units.\<close>

fun startsWith :: "'a list \<Rightarrow> 'a list \<Rightarrow> bool" where
  "startsWith s [] = True"
| "startsWith [] (d # ds) = False"
| "startsWith (c # cs) (d # ds) = (c = d \<and> startsWith cs ds)"

fun includes_str :: "'a list \<Rightarrow> 'a list \<Rightarrow> bool" where
  "includes_str [] t = (t = [])"
| "includes_str (c # cs) t = (startsWith (c # cs) t \<or> includes_str cs t)"

text \<open>\<open>s.split(sep)\<close> for a separator of one code unit: the pieces between the separators.\<close>

fun split :: "char \<Rightarrow> string \<Rightarrow> string list" where
  "split sep [] = [[]]"
| "split sep (c # cs) =
     (if c = sep then [] # split sep cs
      else (case split sep cs of [] \<Rightarrow> [[c]] | p # ps \<Rightarrow> (c # p) # ps))"

text \<open>\<open>xs.join(sep)\<close>.\<close>

fun join :: "string \<Rightarrow> string list \<Rightarrow> string" where
  "join sep [] = []"
| "join sep [x] = x"
| "join sep (x # y # ys) = x @ sep @ join sep (y # ys)"

section \<open>Strings of code units\<close>

text \<open>
  A JavaScript string as it is: a list of UTF-16 code units. \<open>js\<close> reads an ASCII literal
  as such a string. White space is what \<open>trim\<close> removes: the WhiteSpace and
  LineTerminator code points of ECMAScript, all of them single code units.
\<close>

type_synonym codeunit = "16 word"

type_synonym jstring = "codeunit list"

definition js :: "string \<Rightarrow> jstring" where
  "js s = map of_char s"

definition isWhiteSpaceUnit :: "codeunit \<Rightarrow> bool" where
  "isWhiteSpaceUnit u \<longleftrightarrow>
     u = 0x0009 \<or> u = 0x000A \<or> u = 0x000B \<or> u = 0x000C \<or> u = 0x000D \<or> u = 0x0020 \<or>
     u = 0x00A0 \<or> u = 0x1680 \<or> (0x2000 \<le> u \<and> u \<le> 0x200A) \<or> u = 0x2028 \<or> u = 0x2029 \<or>
     u = 0x202F \<or> u = 0x205F \<or> u = 0x3000 \<or> u = 0xFEFF"

definition trimUnits :: "jstring \<Rightarrow> jstring" where
  "trimUnits s = rev (dropWhile isWhiteSpaceUnit (rev (dropWhile isWhiteSpaceUnit s)))"

text \<open>
  \<open>s.toUpperCase()\<close>, as ECMAScript defines it: the string is read as code points
  (a high surrogate followed by a low one is one code point, any other code unit is the
  code point of its number), every code point is replaced by its upper-case mapping of
  the Unicode Character Database, which can be several code points and does not depend
  on the neighbours, and the code points are written back as code units. The table of
  the mappings is the platform's and is a parameter.
\<close>

type_synonym codepoint = nat

fun codePoints :: "jstring \<Rightarrow> codepoint list" where
  "codePoints [] = []"
| "codePoints [u] = [unat u]"
| "codePoints (u # v # us) =
     (if 0xD800 \<le> u \<and> u \<le> 0xDBFF \<and> 0xDC00 \<le> v \<and> v \<le> 0xDFFF
      then (0x10000 + (unat u - 0xD800) * 0x400 + (unat v - 0xDC00)) # codePoints us
      else unat u # codePoints (v # us))"

definition codeUnits :: "codepoint \<Rightarrow> jstring" where
  "codeUnits cp =
     (if cp < 0x10000 then [of_nat cp]
      else [of_nat (0xD800 + (cp - 0x10000) div 0x400), of_nat (0xDC00 + (cp - 0x10000) mod 0x400)])"

definition upperCaseWith :: "(codepoint \<Rightarrow> codepoint list) \<Rightarrow> jstring \<Rightarrow> jstring" where
  "upperCaseWith mapping s = concat (map codeUnits (concat (map mapping (codePoints s))))"

section \<open>Regular expressions\<close>

text \<open>
  The fragment of regular expressions the worker uses: an anchored pattern \<open>/^...$/\<close>
  that is a sequence of items, each a character class (a literal is the class of one
  character) or a class under \<open>+\<close>. \<open>test\<close> tries, as the backtracking matcher does,
  every number of repetitions of a \<open>+\<close> item.
\<close>

datatype item = One "char \<Rightarrow> bool" | Many1 "char \<Rightarrow> bool"

fun test :: "item list \<Rightarrow> string \<Rightarrow> bool" where
  "test [] s = (s = [])"
| "test (One p # r) [] = False"
| "test (One p # r) (c # cs) = (p c \<and> test r cs)"
| "test (Many1 p # r) [] = False"
| "test (Many1 p # r) (c # cs) = (p c \<and> (test r cs \<or> test (Many1 p # r) cs))"

section \<open>JSON values\<close>

text \<open>
  What \<open>request.json()\<close> and \<open>response.json()\<close> return is an untyped JavaScript value.
  An object is the list of its members in the order of the text; a later member of the
  same name replaces an earlier one, as \<open>JSON.parse\<close> does. \<open>JUndefined\<close> is never
  parsed, it is what reading a missing property gives. The type of the strings is a
  parameter: \<open>string\<close> for the body of a request, \<open>jstring\<close> for the answer of the
  classifier.
\<close>

datatype 's jsval =
    JUndefined
  | JNull
  | JBool bool
  | JNumber rat
  | JString 's
  | JArray "'s jsval list"
  | JObject "('s \<times> 's jsval) list"

fun typeof :: "'s jsval \<Rightarrow> string" where
  "typeof JUndefined = ''undefined''"
| "typeof JNull = ''object''"
| "typeof (JBool b) = ''boolean''"
| "typeof (JNumber n) = ''number''"
| "typeof (JString s) = ''string''"
| "typeof (JArray xs) = ''object''"
| "typeof (JObject kvs) = ''object''"

text \<open>\<open>!v\<close> is \<open>\<not> truthy v\<close>.\<close>

fun truthy :: "'a list jsval \<Rightarrow> bool" where
  "truthy JUndefined = False"
| "truthy JNull = False"
| "truthy (JBool b) = b"
| "truthy (JNumber n) = (n \<noteq> 0)"
| "truthy (JString s) = (s \<noteq> [])"
| "truthy (JArray xs) = True"
| "truthy (JObject kvs) = True"

text \<open>
  \<open>v.name\<close> for the property names the worker reads (\<open>message\<close>, \<open>recipient_email\<close>,
  \<open>context_tag\<close>, \<open>sender_token\<close>, \<open>candidates\<close>, \<open>content\<close>, \<open>parts\<close>, \<open>text\<close>), none
  of which an array, a string, a number or a boolean has. Reading a property of
  \<open>undefined\<close> or \<open>null\<close> throws a TypeError: the result is \<open>None\<close>.
\<close>

fun getProp :: "'s jsval \<Rightarrow> 's \<Rightarrow> 's jsval option" where
  "getProp JUndefined k = None"
| "getProp JNull k = None"
| "getProp (JObject kvs) k =
     Some (case map_of (rev kvs) k of Some v \<Rightarrow> v | None \<Rightarrow> JUndefined)"
| "getProp v k = Some JUndefined"

text \<open>\<open>v[0]\<close>: the first element of an array, the first code unit of a string, the member \<open>"0"\<close> of an object.\<close>

fun getFirst :: "jstring jsval \<Rightarrow> jstring jsval option" where
  "getFirst JUndefined = None"
| "getFirst JNull = None"
| "getFirst (JArray xs) = Some (case xs of [] \<Rightarrow> JUndefined | x # _ \<Rightarrow> x)"
| "getFirst (JString s) = Some (case s of [] \<Rightarrow> JUndefined | c # _ \<Rightarrow> JString [c])"
| "getFirst (JObject kvs) = getProp (JObject kvs) (js ''0'')"
| "getFirst v = Some JUndefined"

text \<open>
  Optional chaining, \<open>v?.name\<close> and \<open>v?.[0]\<close>: \<open>undefined\<close> when \<open>v\<close> is \<open>undefined\<close> or
  \<open>null\<close>, and then the rest of the chain is skipped, which for the chains of the worker
  is the same as going on with \<open>undefined\<close>.
\<close>

definition optProp :: "'s jsval \<Rightarrow> 's \<Rightarrow> 's jsval" where
  "optProp v k = (case getProp v k of None \<Rightarrow> JUndefined | Some x \<Rightarrow> x)"

definition optFirst :: "jstring jsval \<Rightarrow> jstring jsval" where
  "optFirst v = (case getFirst v of None \<Rightarrow> JUndefined | Some x \<Rightarrow> x)"

section \<open>Types of the worker\<close>

record SendRequest =
  message :: string
  recipient_email :: string
  context_tag :: string
  sender_token :: string

datatype SendStatus = Sent | Rejected | Error

datatype ErrorCode = message_rejected | rate_limited | validation_error | server_error

datatype ApiResponse = Success | Failure ErrorCode string

datatype body = NoBody | TextBody string | JsonBody ApiResponse

record Response =
  status :: nat
  headers :: "(string \<times> string) list"
  body :: body

text \<open>The incoming request: its method, the path of its URL, and what \<open>request.json()\<close>
  gives (\<open>None\<close> when it throws).\<close>

record Request =
  http_method :: string
  pathname :: string
  json :: "string jsval option"

section \<open>Constants\<close>

definition MAX_MESSAGE_LENGTH :: nat where
  "MAX_MESSAGE_LENGTH = 2000"

definition MAX_SENDS_PER_WINDOW :: int where
  "MAX_SENDS_PER_WINDOW = 5"

definition RATE_LIMIT_WINDOW_HOURS :: int where
  "RATE_LIMIT_WINDOW_HOURS = 24"

definition VALID_CONTEXT_TAGS :: "string list" where
  "VALID_CONTEXT_TAGS =
     [''former-student'', ''former-teacher'', ''old-friend'', ''former-colleague'',
      ''former-teammate'', ''family-member'', ''mentor'', ''other'']"

definition CONTEXT_TAG_DISPLAY_NAMES :: "(string \<times> string) list" where
  "CONTEXT_TAG_DISPLAY_NAMES =
     [(''former-student'', ''A former student''),
      (''former-teacher'', ''A former teacher''),
      (''old-friend'', ''An old friend''),
      (''former-colleague'', ''A former colleague''),
      (''former-teammate'', ''A former teammate''),
      (''family-member'', ''A family member''),
      (''mentor'', ''A mentor''),
      (''other'', ''Someone from your past'')]"

section \<open>Utility functions of the worker\<close>

text \<open>The class \<open>[^\s@]\<close>.\<close>

definition notSpaceAt :: "char \<Rightarrow> bool" where
  "notSpaceAt c \<longleftrightarrow> \<not> isWhiteSpace c \<and> c \<noteq> CHR ''@''"

text \<open>\<open>/^[^\s@]+@[^\s@]+\.[^\s@]+$/\<close>\<close>

definition emailRegex :: "item list" where
  "emailRegex =
     [Many1 notSpaceAt, One (\<lambda>c. c = CHR ''@''), Many1 notSpaceAt,
      One (\<lambda>c. c = CHR ''.''), Many1 notSpaceAt]"

definition isValidEmail :: "string \<Rightarrow> bool" where
  "isValidEmail email = test emailRegex email"

text \<open>
  \<open>extractDomain\<close>: the second piece of the split at \<open>@\<close>, lower-cased, and the empty
  string when there is no second piece.
\<close>

definition extractDomain :: "string \<Rightarrow> string" where
  "extractDomain email =
     (case split (CHR ''@'') email of
        p0 # p1 # ps \<Rightarrow> toLowerCase p1
      | _ \<Rightarrow> [])"

text \<open>
  \<open>hashString\<close>: the digest of the encoded string, each byte as two hexadecimal digits.
  SHA-256 itself is the platform's (\<open>crypto.subtle.digest\<close>) and is a parameter;
  \<open>TextEncoder\<close> encodes a code unit of the ASCII range as the byte of the same number.
\<close>

definition hexDigit :: "nat \<Rightarrow> char" where
  "hexDigit n = ''0123456789abcdef'' ! (n mod 16)"

fun toString16 :: "nat \<Rightarrow> string" where
  "toString16 n = (if n < 16 then [hexDigit n] else toString16 (n div 16) @ [hexDigit n])"

definition padStart :: "nat \<Rightarrow> char \<Rightarrow> string \<Rightarrow> string" where
  "padStart n c s = replicate (n - length s) c @ s"

definition encode :: "string \<Rightarrow> 8 word list" where
  "encode s = map of_char s"

definition hashString :: "(8 word list \<Rightarrow> 8 word list) \<Rightarrow> string \<Rightarrow> string" where
  "hashString digest str =
     concat (map (\<lambda>b. padStart 2 (CHR ''0'') (toString16 (unat b))) (digest (encode str)))"

definition isValidContextTag :: "string \<Rightarrow> bool" where
  "isValidContextTag tag \<longleftrightarrow> tag \<in> set VALID_CONTEXT_TAGS"

section \<open>Validation\<close>

text \<open>
  \<open>data.name\<close> on the request body, once the body is known to be an object or an array.
\<close>

definition field :: "string jsval \<Rightarrow> string \<Rightarrow> string jsval" where
  "field data k = (case getProp data k of None \<Rightarrow> JUndefined | Some v \<Rightarrow> v)"

text \<open>\<open>typeof v !== 'string' || !v.trim()\<close>\<close>

definition missing :: "string jsval \<Rightarrow> bool" where
  "missing v \<longleftrightarrow> (case v of JString s \<Rightarrow> trim s = [] | _ \<Rightarrow> True)"

text \<open>The string behind a value that passed the \<open>typeof\<close> test.\<close>

definition str :: "string jsval \<Rightarrow> string" where
  "str v = (case v of JString s \<Rightarrow> s | _ \<Rightarrow> [])"

definition validateRequest :: "string jsval \<Rightarrow> string + SendRequest" where
  "validateRequest b =
     (if \<not> truthy b \<or> typeof b \<noteq> ''object'' then
        Inl ''Request body must be a JSON object.''
      else if missing (field b ''message'') then
        Inl ''Message is required and must be a non-empty string.''
      else if missing (field b ''recipient_email'') then
        Inl ''Recipient email is required.''
      else if missing (field b ''context_tag'') then
        Inl ''Context tag is required.''
      else if missing (field b ''sender_token'') then
        Inl ''Sender token is required.''
      else if length (str (field b ''message'')) > MAX_MESSAGE_LENGTH then
        Inl ''Message must be 2000 characters or less.''
      else if \<not> isValidEmail (str (field b ''recipient_email'')) then
        Inl ''Invalid email address format.''
      else if \<not> isValidContextTag (str (field b ''context_tag'')) then
        Inl (''Invalid context tag. Must be one of: '' @ join '', '' VALID_CONTEXT_TAGS @ ''.'')
      else
        Inr \<lparr>message = trim (str (field b ''message'')),
             recipient_email = toLowerCase (trim (str (field b ''recipient_email''))),
             context_tag = str (field b ''context_tag''),
             sender_token = trim (str (field b ''sender_token''))\<rparr>)"

section \<open>The database\<close>

text \<open>
  The two tables of the migration, a table being the list of its rows. The columns keep
  their names, prefixed by the table (\<open>rl_\<close>, \<open>s_\<close>); the \<open>id\<close> of a row of \<open>sends\<close> is its
  position. A timestamp is the number of seconds since the epoch: the worker and SQLite
  both write it as \<open>YYYY-MM-DD HH:MM:SS\<close> in UTC, and the order of such strings, which
  \<open>checkRateLimit\<close> compares, is the order of the instants.
\<close>

record rate_limit =
  rl_sender_hash :: string
  rl_send_count :: int
  rl_window_start :: int

record send =
  s_sender_hash :: string
  s_recipient_domain :: string
  s_context_tag :: string
  s_status :: SendStatus
  s_created_at :: int

record D1Database =
  rate_limits :: "rate_limit list"
  sends :: "send list"

text \<open>
  The statements the worker prepares, and what each does to the tables when the database
  carries it out: \<open>SELECT send_count, window_start FROM rate_limits WHERE sender_hash = ?\<close>
  (with \<open>first()\<close>), \<open>INSERT INTO rate_limits ... VALUES (?, 1, datetime('now'))\<close>,
  \<open>UPDATE rate_limits SET send_count = 1, window_start = datetime('now') WHERE ...\<close>,
  \<open>UPDATE rate_limits SET send_count = send_count + 1 WHERE ...\<close> and
  \<open>INSERT INTO sends (...) VALUES (?, ?, ?, ?)\<close>.
\<close>

datatype statement =
    SelectRateLimit
  | InsertRateLimit
  | ResetRateLimit
  | IncrementRateLimit
  | InsertSend

definition selectRateLimit :: "D1Database \<Rightarrow> string \<Rightarrow> rate_limit option" where
  "selectRateLimit db senderHash = find (\<lambda>r. rl_sender_hash r = senderHash) (rate_limits db)"

definition insertRateLimit :: "D1Database \<Rightarrow> string \<Rightarrow> int \<Rightarrow> D1Database" where
  "insertRateLimit db senderHash now =
     db\<lparr>rate_limits := rate_limits db @
          [\<lparr>rl_sender_hash = senderHash, rl_send_count = 1, rl_window_start = now\<rparr>]\<rparr>"

definition resetRateLimit :: "D1Database \<Rightarrow> string \<Rightarrow> int \<Rightarrow> D1Database" where
  "resetRateLimit db senderHash now =
     db\<lparr>rate_limits :=
          map (\<lambda>r. if rl_sender_hash r = senderHash
                    then r\<lparr>rl_send_count := 1, rl_window_start := now\<rparr> else r)
              (rate_limits db)\<rparr>"

definition incrementRateLimit :: "D1Database \<Rightarrow> string \<Rightarrow> D1Database" where
  "incrementRateLimit db senderHash =
     db\<lparr>rate_limits :=
          map (\<lambda>r. if rl_sender_hash r = senderHash
                    then r\<lparr>rl_send_count := rl_send_count r + 1\<rparr> else r)
              (rate_limits db)\<rparr>"

definition insertSend :: "D1Database \<Rightarrow> string \<Rightarrow> string \<Rightarrow> string \<Rightarrow> SendStatus \<Rightarrow> int \<Rightarrow> D1Database" where
  "insertSend db senderHash recipientDomain contextTag st now =
     db\<lparr>sends := sends db @
          [\<lparr>s_sender_hash = senderHash, s_recipient_domain = recipientDomain,
            s_context_tag = contextTag, s_status = st, s_created_at = now\<rparr>]\<rparr>"

section \<open>The world outside the worker\<close>

text \<open>
  What \<open>fetch\<close> of an external service comes to: the promise is rejected (no
  connection, a timeout of the transport), or there is a response, with its status, with
  what \<open>response.text()\<close> gives (\<open>None\<close> when reading the body throws) and with what
  \<open>response.json()\<close> gives (\<open>None\<close> when it throws: the body is not JSON).
\<close>

record HttpResponse =
  http_status :: nat
  http_text :: "string option"
  http_json :: "jstring jsval option"

datatype fetched = NetworkFailure | Responded HttpResponse

definition ok :: "HttpResponse \<Rightarrow> bool" where
  "ok r \<longleftrightarrow> 200 \<le> http_status r \<and> http_status r \<le> 299"

text \<open>What \<open>sendEmail\<close> submits to the mail service.\<close>

record Email =
  mail_from :: string
  mail_to :: "string list"
  mail_subject :: string
  mail_text :: string
  mail_html :: string

text \<open>
  Everything a request meets that is not the worker's own: the clock of the worker
  (\<open>new Date()\<close>, in whole seconds), the clock of the database (\<open>datetime('now')\<close>), the
  statements the database refuses, each with the message of the error it throws, the
  digest function, the upper-case mappings of the Unicode Character Database, what the
  classifier answers to a key and a message (the request of \<open>filterMessage\<close> is the fixed
  prompt around the message), and what the mail service answers to a key and an email.
\<close>

record world =
  clock :: int
  d1_now :: int
  d1_error :: "statement \<Rightarrow> string option"
  sha256 :: "8 word list \<Rightarrow> 8 word list"
  upperMapping :: "codepoint \<Rightarrow> codepoint list"
  gemini :: "string \<Rightarrow> string \<Rightarrow> fetched"
  resend :: "string \<Rightarrow> Email \<Rightarrow> fetched"

record Env =
  GEMINI_API_KEY :: string
  RESEND_API_KEY :: string

section \<open>Rate limiting\<close>

text \<open>
  \<open>checkRateLimit\<close> returns the answer and the database after it, or \<open>Inl\<close> the message
  of the error a statement threw (the database is then as before: no statement of the
  function follows a write). \<open>windowStart\<close> is the clock of the worker set back by
  \<open>setHours(getHours() - 24)\<close>, which in UTC, where the worker runs, is 24 hours.
\<close>

definition checkRateLimit :: "world \<Rightarrow> D1Database \<Rightarrow> string \<Rightarrow> string + (bool \<times> D1Database)" where
  "checkRateLimit w db senderHash =
     (let windowStart = clock w - RATE_LIMIT_WINDOW_HOURS * 60 * 60 in
      case d1_error w SelectRateLimit of
        Some e \<Rightarrow> Inl e
      | None \<Rightarrow>
      (case selectRateLimit db senderHash of
         None \<Rightarrow>
           (case d1_error w InsertRateLimit of
              Some e \<Rightarrow> Inl e
            | None \<Rightarrow> Inr (True, insertRateLimit db senderHash (d1_now w)))
       | Some rec \<Rightarrow>
           if rl_window_start rec < windowStart then
             (case d1_error w ResetRateLimit of
                Some e \<Rightarrow> Inl e
              | None \<Rightarrow> Inr (True, resetRateLimit db senderHash (d1_now w)))
           else if rl_send_count rec < MAX_SENDS_PER_WINDOW then
             (case d1_error w IncrementRateLimit of
                Some e \<Rightarrow> Inl e
              | None \<Rightarrow> Inr (True, incrementRateLimit db senderHash))
           else Inr (False, db)))"

section \<open>Content filter\<close>

text \<open>\<open>s.toUpperCase()\<close> in a world.\<close>

definition toUpperCase :: "world \<Rightarrow> jstring \<Rightarrow> jstring" where
  "toUpperCase w s = upperCaseWith (upperMapping w) s"

text \<open>
  \<open>data.candidates?.[0]?.content?.parts?.[0]?.text?.trim().toUpperCase()\<close>: \<open>None\<close> when
  the expression throws (\<open>data\<close> is \<open>null\<close>, or \<open>text\<close> is there and is not a string, so
  that it has no \<open>trim\<close>), \<open>Some None\<close> when it is \<open>undefined\<close>.
\<close>

definition candidateText :: "jstring jsval \<Rightarrow> jstring jsval option" where
  "candidateText data =
     (case getProp data (js ''candidates'') of
        None \<Rightarrow> None
      | Some candidates \<Rightarrow>
          Some (optProp (optFirst (optProp (optProp (optFirst candidates) (js ''content''))
                                     (js ''parts''))) (js ''text'')))"

definition verdictText :: "world \<Rightarrow> jstring jsval \<Rightarrow> jstring option option" where
  "verdictText w data =
     (case candidateText data of
        None \<Rightarrow> None
      | Some JUndefined \<Rightarrow> Some None
      | Some JNull \<Rightarrow> Some None
      | Some (JString t) \<Rightarrow> Some (Some (toUpperCase w (trimUnits t)))
      | Some _ \<Rightarrow> None)"

text \<open>
  \<open>filterMessage\<close>: the key and the text of the message go into the request, and the
  world answers it. Every exception inside the function is caught and gives \<open>true\<close>.
\<close>

definition filterMessage :: "world \<Rightarrow> string \<Rightarrow> string \<Rightarrow> bool" where
  "filterMessage w msg apiKey =
     (case gemini w apiKey msg of
        NetworkFailure \<Rightarrow> True
      | Responded response \<Rightarrow>
          if \<not> ok response then
            (case http_text response of None \<Rightarrow> True | Some errorText \<Rightarrow> True)
          else (case http_json response of
                  None \<Rightarrow> True
                | Some data \<Rightarrow>
                    (case verdictText w data of
                       None \<Rightarrow> True
                     | Some None \<Rightarrow> True
                     | Some (Some content) \<Rightarrow>
                         if content = [] then True
                         else \<not> includes_str content (js ''REJECT''))))"

text \<open>
  The worker also writes to its console. One of these lines carries text of the request:
  \<open>console.log('Gemini filter response:', content, 'for message:', message.substring(0, 50))\<close>,
  which is reached when the answer of the classifier was read and the verdict
  expression did not throw. \<open>messageLogged\<close> is what that line receives of the message;
  the other console lines (statuses, answers of the services, errors) are left out.
\<close>

definition messageLogged :: "world \<Rightarrow> string \<Rightarrow> string \<Rightarrow> string list" where
  "messageLogged w msg apiKey =
     (case gemini w apiKey msg of
        NetworkFailure \<Rightarrow> []
      | Responded response \<Rightarrow>
          if \<not> ok response then []
          else (case http_json response of
                  None \<Rightarrow> []
                | Some data \<Rightarrow>
                    (case verdictText w data of
                       None \<Rightarrow> []
                     | Some content \<Rightarrow> [take 50 msg])))"

section \<open>Delivery\<close>

text \<open>\<open>escapeHtml\<close>: every match of \<open>/[&<>"']/g\<close> is replaced by what the callback
  returns, the entry of \<open>htmlEscapes\<close> for the matched character.\<close>

definition htmlEscapes :: "(char \<times> string) list" where
  \<open>htmlEscapes =
     [(CHR ''&'', ''&amp;''),
      (CHR ''<'', ''&lt;''),
      (CHR ''>'', ''&gt;''),
      (CHR 0x22, ''&quot;''),
      (CHR 0x27, ''&#39;'')]\<close>

definition htmlSpecial :: "char \<Rightarrow> bool" where
  "htmlSpecial c \<longleftrightarrow>
     c = CHR ''&'' \<or> c = CHR ''<'' \<or> c = CHR ''>'' \<or> c = CHR 0x22 \<or> c = CHR 0x27"

text \<open>\<open>s.replace(/[class]/g, f)\<close> for a class of single characters.\<close>

definition replaceAll :: "(char \<Rightarrow> bool) \<Rightarrow> (char \<Rightarrow> string) \<Rightarrow> string \<Rightarrow> string" where
  "replaceAll cls f s = concat (map (\<lambda>c. if cls c then f c else [c]) s)"

definition escapeHtml :: "string \<Rightarrow> string" where
  "escapeHtml text =
     replaceAll htmlSpecial
       (\<lambda>char. case map_of htmlEscapes char of Some e \<Rightarrow> e | None \<Rightarrow> ''undefined'') text"

text \<open>The two template literals of \<open>sendEmail\<close>, one line of the source per line.\<close>

definition plainTextBody :: "string \<Rightarrow> string \<Rightarrow> string" where
  \<open>plainTextBody displayName msg =
     ''From: '' @ displayName @
     ''\<newline>'' @
     ''\<newline>'' @
     msg @
     ''\<newline>'' @
     ''\<newline>'' @
     ''---\<newline>'' @
     ''\<newline>'' @
     ''This message was sent anonymously through Still Grateful, a service for expressing gratitude without social pressure.\<newline>'' @
     ''\<newline>'' @
     ''No reply is expected or possible. The sender chose to remain anonymous.\<newline>'' @
     ''\<newline>'' @
     ''Learn more at stillgrateful.app''\<close>

definition htmlBody :: "string \<Rightarrow> string \<Rightarrow> string" where
  \<open>htmlBody displayName msg =
     ''\<newline>'' @
     ''<!DOCTYPE html>\<newline>'' @
     ''<html>\<newline>'' @
     ''<head>\<newline>'' @
     ''  <meta charset="utf-8">\<newline>'' @
     ''  <meta name="viewport" content="width=device-width, initial-scale=1">\<newline>'' @
     ''</head>\<newline>'' @
     ''<body style="font-family: -apple-system, BlinkMacSystemFont, \'Segoe UI\', Roboto, sans-serif; line-height: 1.6; color: #333; max-width: 600px; margin: 0 auto; padding: 20px;">\<newline>'' @
     ''  <p style="color: #666; margin-bottom: 8px;">From: <strong>'' @
     displayName @
     ''</strong></p>\<newline>'' @
     ''  \<newline>'' @
     ''  <div style="background-color: #f9f9f9; border-left: 4px solid #4a9c6d; padding: 20px; margin: 20px 0; border-radius: 4px;">\<newline>'' @
     ''    <p style="margin: 0; white-space: pre-wrap;">'' @
     escapeHtml msg @
     ''</p>\<newline>'' @
     ''  </div>\<newline>'' @
     ''  \<newline>'' @
     ''  <hr style="border: none; border-top: 1px solid #eee; margin: 30px 0;">\<newline>'' @
     ''  \<newline>'' @
     ''  <p style="color: #888; font-size: 14px;">\<newline>'' @
     ''    This message was sent anonymously through <a href="https://stillgrateful.app" style="color: #4a9c6d; text-decoration: none;">Still Grateful</a>, a service for expressing gratitude without social pressure.\<newline>'' @
     ''  </p>\<newline>'' @
     ''  \<newline>'' @
     ''  <p style="color: #888; font-size: 14px;">\<newline>'' @
     ''    No reply is expected or possible. The sender chose to remain anonymous.\<newline>'' @
     ''  </p>\<newline>'' @
     ''  \<newline>'' @
     ''  <p style="color: #888; font-size: 14px;">\<newline>'' @
     ''    <a href="https://stillgrateful.app" style="color: #4a9c6d; text-decoration: none;">Learn more at stillgrateful.app</a>\<newline>'' @
     ''  </p>\<newline>'' @
     ''</body>\<newline>'' @
     ''</html>''\<close>

definition displayNameOf :: "string \<Rightarrow> string" where
  "displayNameOf contextTag =
     (case map_of CONTEXT_TAG_DISPLAY_NAMES contextTag of Some n \<Rightarrow> n | None \<Rightarrow> ''undefined'')"

definition renderEmail :: "string \<Rightarrow> string \<Rightarrow> string \<Rightarrow> Email" where
  "renderEmail recipientEmail contextTag msg =
     \<lparr>mail_from = ''Still Grateful <hello@stillgrateful.app>'',
      mail_to = [recipientEmail],
      mail_subject = ''Someone is grateful for you'',
      mail_text = plainTextBody (displayNameOf contextTag) msg,
      mail_html = htmlBody (displayNameOf contextTag) msg\<rparr>"

definition sendEmail :: "world \<Rightarrow> string \<Rightarrow> string \<Rightarrow> string \<Rightarrow> string \<Rightarrow> bool" where
  "sendEmail w recipientEmail contextTag msg apiKey =
     (case resend w apiKey (renderEmail recipientEmail contextTag msg) of
        NetworkFailure \<Rightarrow> False
      | Responded response \<Rightarrow>
          (case http_text response of
             None \<Rightarrow> False
           | Some responseText \<Rightarrow> if \<not> ok response then False else True))"

section \<open>Audit log\<close>

text \<open>\<open>logSend\<close>: the row is appended, unless the statement throws, which is caught.\<close>

definition logSend :: "world \<Rightarrow> D1Database \<Rightarrow> string \<Rightarrow> string \<Rightarrow> string \<Rightarrow> SendStatus \<Rightarrow> D1Database" where
  "logSend w db senderHash recipientDomain contextTag st =
     (case d1_error w InsertSend of
        Some e \<Rightarrow> db
      | None \<Rightarrow> insertSend db senderHash recipientDomain contextTag st (d1_now w))"

section \<open>The handler\<close>

definition corsHeaders :: "(string \<times> string) list" where
  "corsHeaders =
     [(''Access-Control-Allow-Origin'', ''*''),
      (''Access-Control-Allow-Methods'', ''POST, OPTIONS''),
      (''Access-Control-Allow-Headers'', ''Content-Type'')]"

definition jsonResponse :: "ApiResponse \<Rightarrow> nat \<Rightarrow> Response" where
  "jsonResponse data st =
     \<lparr>status = st, headers = (''Content-Type'', ''application/json'') # corsHeaders,
      body = JsonBody data\<rparr>"

definition errorResponse :: "ErrorCode \<Rightarrow> string \<Rightarrow> nat \<Rightarrow> Response" where
  "errorResponse err reason st = jsonResponse (Failure err reason) st"

text \<open>
  What a request did besides answering, in order: the token it hashed, the key and the
  message it sent to the classifier, what it wrote of the message to the console, the
  key and the email it sent to the mail service, and the audit write it attempted. The
  database is passed through the handler and returned. The headers of an answer are the
  ones the worker sets.
\<close>

datatype effect =
    Hashed string
  | AskedClassifier string string
  | ConsoleMessage string
  | Mailed string Email
  | Logged string string string SendStatus

text \<open>The audit writes a request attempted (the calls of \<open>logSend\<close>), and the tokens it hashed.\<close>

fun auditWrites :: "effect list \<Rightarrow> (string \<times> string \<times> string \<times> SendStatus) list" where
  "auditWrites [] = []"
| "auditWrites (Logged h domain tag st # es) = (h, domain, tag, st) # auditWrites es"
| "auditWrites (e # es) = auditWrites es"

fun hashings :: "effect list \<Rightarrow> string list" where
  "hashings [] = []"
| "hashings (Hashed t # es) = t # hashings es"
| "hashings (e # es) = hashings es"

text \<open>
  Steps 2 to 6 of the handler, for the validated request \<open>d\<close>: rate limit, filter,
  delivery, audit log, answer. The \<open>try\<close> around the body of the handler catches what
  \<open>checkRateLimit\<close> throws; the other functions catch their own exceptions.
\<close>

definition handleSend :: "world \<Rightarrow> Env \<Rightarrow> D1Database \<Rightarrow> SendRequest \<Rightarrow> Response \<times> D1Database \<times> effect list" where
  \<open>handleSend w env db d =
     (let senderHash = hashString (sha256 w) (sender_token d);
          recipientDomain = extractDomain (recipient_email d);
          hashed = [Hashed (sender_token d)]
      in
      case checkRateLimit w db senderHash of
        Inl e \<Rightarrow>
          (errorResponse server_error (''An unexpected error occurred: '' @ e) 500, db, hashed)
      | Inr (withinRateLimit, db1) \<Rightarrow>
          if \<not> withinRateLimit then
            (errorResponse rate_limited
               ''You\'ve sent too many messages today. Please try again tomorrow.'' 429,
             logSend w db1 senderHash recipientDomain (context_tag d) Rejected,
             hashed @ [Logged senderHash recipientDomain (context_tag d) Rejected])
          else
          (let asked = hashed @ [AskedClassifier (GEMINI_API_KEY env) (message d)] @
                 map ConsoleMessage (messageLogged w (message d) (GEMINI_API_KEY env)) in
           if \<not> filterMessage w (message d) (GEMINI_API_KEY env) then
             (errorResponse message_rejected
                ''This message doesn\'t appear to be expressing gratitude.'' 400,
              logSend w db1 senderHash recipientDomain (context_tag d) Rejected,
              asked @ [Logged senderHash recipientDomain (context_tag d) Rejected])
           else
           (let mailed = asked @ [Mailed (RESEND_API_KEY env)
                                   (renderEmail (recipient_email d) (context_tag d) (message d))] in
            if \<not> sendEmail w (recipient_email d) (context_tag d) (message d) (RESEND_API_KEY env) then
              (errorResponse server_error ''Failed to send email. Please try again later.'' 500,
               logSend w db1 senderHash recipientDomain (context_tag d) Error,
               mailed @ [Logged senderHash recipientDomain (context_tag d) Error])
            else
              (jsonResponse Success 200,
               logSend w db1 senderHash recipientDomain (context_tag d) Sent,
               mailed @ [Logged senderHash recipientDomain (context_tag d) Sent]))))\<close>

text \<open>The handler: preflight, routing, parsing and validation (step 1), then the steps above.\<close>

definition fetch :: "world \<Rightarrow> Env \<Rightarrow> D1Database \<Rightarrow> Request \<Rightarrow> Response \<times> D1Database \<times> effect list" where
  "fetch w env db request =
     (if http_method request = ''OPTIONS'' then
        (\<lparr>status = 204, headers = corsHeaders @ [(''Access-Control-Max-Age'', ''86400'')],
          body = NoBody\<rparr>, db, [])
      else if http_method request \<noteq> ''POST'' \<or> pathname request \<noteq> ''/send'' then
        (\<lparr>status = 404, headers = [], body = TextBody ''Not Found''\<rparr>, db, [])
      else
        case json request of
          None \<Rightarrow> (errorResponse validation_error ''Invalid JSON in request body.'' 400, db, [])
        | Some b \<Rightarrow>
            (case validateRequest b of
               Inl reason \<Rightarrow> (errorResponse validation_error reason 400, db, [])
             | Inr d \<Rightarrow> handleSend w env db d))"

section \<open>The order of the checks, as the specification words it\<close>

text \<open>
  The specification lists five checks. Each is written here as its sentence reads; a
  payload violates a check when the sentence is false of it.
\<close>

datatype spec_check = IsObject | MessageOk | RecipientOk | TagOk | TokenOk

fun violates :: "string jsval \<Rightarrow> spec_check \<Rightarrow> bool" where
  "violates b IsObject = (\<not> truthy b \<or> typeof b \<noteq> ''object'')"
| "violates b MessageOk =
     (missing (field b ''message'') \<or> length (str (field b ''message'')) > MAX_MESSAGE_LENGTH)"
| "violates b RecipientOk =
     (case field b ''recipient_email'' of JString e \<Rightarrow> \<not> isValidEmail e | _ \<Rightarrow> True)"
| "violates b TagOk =
     (case field b ''context_tag'' of JString t \<Rightarrow> \<not> isValidContextTag t | _ \<Rightarrow> True)"
| "violates b TokenOk = missing (field b ''sender_token'')"

definition spec_order :: "spec_check list" where
  "spec_order = [IsObject, MessageOk, RecipientOk, TagOk, TokenOk]"

definition first_violated :: "string jsval \<Rightarrow> spec_check option" where
  "first_violated b = find (violates b) spec_order"

text \<open>The checks of \<open>validateRequest\<close> in the order of its text, each with its reason.\<close>

definition checks_in_order :: "((string jsval \<Rightarrow> bool) \<times> string) list" where
  "checks_in_order =
     [(\<lambda>b. \<not> truthy b \<or> typeof b \<noteq> ''object'', ''Request body must be a JSON object.''),
      (\<lambda>b. missing (field b ''message''), ''Message is required and must be a non-empty string.''),
      (\<lambda>b. missing (field b ''recipient_email''), ''Recipient email is required.''),
      (\<lambda>b. missing (field b ''context_tag''), ''Context tag is required.''),
      (\<lambda>b. missing (field b ''sender_token''), ''Sender token is required.''),
      (\<lambda>b. length (str (field b ''message'')) > MAX_MESSAGE_LENGTH,
         ''Message must be 2000 characters or less.''),
      (\<lambda>b. \<not> isValidEmail (str (field b ''recipient_email'')), ''Invalid email address format.''),
      (\<lambda>b. \<not> isValidContextTag (str (field b ''context_tag'')),
         ''Invalid context tag. Must be one of: '' @ join '', '' VALID_CONTEXT_TAGS @ ''.'')]"

section \<open>The rejection marker, as the specification words it\<close>

text \<open>
  A word is \<open>reject\<close> in some letter case when it is \<open>reject\<close> letter by letter, each
  letter small or capital. A text contains \<open>reject\<close> in some letter case when the six
  code units at some place of it are such a word.
\<close>

definition isRejectAnyCase :: "jstring \<Rightarrow> bool" where
  "isRejectAnyCase u \<longleftrightarrow>
     list_all2 (\<lambda>c (small, capital). c = small \<or> c = capital) u
       (zip (js ''reject'') (js ''REJECT''))"

fun containsRejectAnyCase :: "jstring \<Rightarrow> bool" where
  "containsRejectAnyCase [] = False"
| "containsRejectAnyCase (c # cs) =
     (isRejectAnyCase (take 6 (c # cs)) \<or> containsRejectAnyCase cs)"

text \<open>
  Text in the ASCII range, and what the Unicode Character Database says of upper-casing
  there: the letters \<open>a..z\<close> become \<open>A..Z\<close>, one for one, and nothing else changes.
  \<open>upperOnAscii\<close> says of a table of mappings that it agrees with this.
\<close>

definition isAscii :: "jstring \<Rightarrow> bool" where
  "isAscii s \<longleftrightarrow> list_all (\<lambda>u. u < 0x80) s"

definition asciiUpper :: "codepoint \<Rightarrow> codepoint" where
  "asciiUpper cp = (if 0x61 \<le> cp \<and> cp \<le> 0x7A then cp - 0x20 else cp)"

definition upperOnAscii :: "(codepoint \<Rightarrow> codepoint list) \<Rightarrow> bool" where
  "upperOnAscii mapping \<longleftrightarrow> list_all (\<lambda>cp. mapping cp = [asciiUpper cp]) [0..<0x80]"

text \<open>The same upper-casing, of a code unit.\<close>

definition upperUnit :: "codeunit \<Rightarrow> codeunit" where
  "upperUnit u = of_nat (asciiUpper (unat u))"

section \<open>The audit status of an answer, as the specification words it\<close>

text \<open>
  \<open>rejected\<close> for the rejections of the rate limit and of the content filter, \<open>error\<close>
  for a failure of delivery, \<open>sent\<close> for success.
\<close>

fun auditStatusFor :: "Response \<Rightarrow> SendStatus option" where
  "auditStatusFor resp =
     (case body resp of
        JsonBody Success \<Rightarrow> Some Sent
      | JsonBody (Failure rate_limited reason) \<Rightarrow> Some Rejected
      | JsonBody (Failure message_rejected reason) \<Rightarrow> Some Rejected
      | JsonBody (Failure server_error reason) \<Rightarrow> Some Error
      | _ \<Rightarrow> None)"

section \<open>Escaping, as the specification words it\<close>

text \<open>Each of the five characters \<open>& < > " '\<close> gives its HTML entity, any other character itself.\<close>

definition htmlEntity :: "char \<Rightarrow> string" where
  "htmlEntity c =
     (if c = CHR ''&'' then ''&amp;''
      else if c = CHR ''<'' then ''&lt;''
      else if c = CHR ''>'' then ''&gt;''
      else if c = CHR 0x22 then ''&quot;''
      else if c = CHR 0x27 then ''&#39;''
      else [c])"

section \<open>Example inputs\<close>

text \<open>A world in which nothing fails: the classifier answers ALLOW and the mail is accepted.\<close>

text \<open>
  The upper-case mappings as far as the examples go: the ASCII letters, and U+1E97
  (LATIN SMALL LETTER T WITH DIAERESIS), which the SpecialCasing table of Unicode maps
  to \<open>T\<close> followed by U+0308 (COMBINING DIAERESIS). Other code points are left alone,
  which for many of them is not what the table says.
\<close>

definition sampleMapping :: "codepoint \<Rightarrow> codepoint list" where
  "sampleMapping cp = (if cp = 0x1E97 then [0x54, 0x308] else [asciiUpper cp])"

text \<open>The answer of the classifier with a given text at the place of the verdict.\<close>

definition answerWith :: "jstring \<Rightarrow> jstring jsval" where
  "answerWith t =
     JObject [(js ''candidates'',
       JArray [JObject [(js ''content'',
         JObject [(js ''parts'', JArray [JObject [(js ''text'', JString t)]])])]])]"

definition allowAnswer :: "jstring jsval" where
  "allowAnswer = answerWith (js ''ALLOW'')"

definition calmWorld :: world where
  "calmWorld =
     \<lparr>clock = 1700000000, d1_now = 1700000000, d1_error = (\<lambda>s. None),
      sha256 = (\<lambda>bytes. [0xAB, 0x01]),
      upperMapping = sampleMapping,
      gemini = (\<lambda>key msg.
        Responded \<lparr>http_status = 200, http_text = Some [], http_json = Some allowAnswer\<rparr>),
      resend = (\<lambda>key mail.
        Responded \<lparr>http_status = 200, http_text = Some [], http_json = None\<rparr>)\<rparr>"

text \<open>The same world with a classifier that answers \<open>Reject.\<close> between spaces and a line end.\<close>

definition rejectAnswer :: "jstring jsval" where
  "rejectAnswer = answerWith (js '' Reject.\<newline>'')"

definition rejectingWorld :: world where
  "rejectingWorld =
     calmWorld\<lparr>gemini := (\<lambda>key msg.
       Responded \<lparr>http_status = 200, http_text = Some [], http_json = Some rejectAnswer\<rparr>)\<rparr>"

text \<open>
  The same world with a classifier that answers \<open>rejec\<close> followed by U+1E97, a text of
  six code units that has no \<open>t\<close> in it.
\<close>

definition diaeresisText :: jstring where
  "diaeresisText = js ''rejec'' @ [0x1E97]"

definition diaeresisWorld :: world where
  "diaeresisWorld =
     calmWorld\<lparr>gemini := (\<lambda>key msg.
       Responded \<lparr>http_status = 200, http_text = Some [],
                  http_json = Some (answerWith diaeresisText)\<rparr>)\<rparr>"




text \<open>A world in which the mail service answers 500.\<close>

definition mailDownWorld :: world where
  "mailDownWorld =
     calmWorld\<lparr>resend := (\<lambda>key email.
       Responded \<lparr>http_status = 500, http_text = Some ''Internal Server Error'',
                  http_json = None\<rparr>)\<rparr>"

text \<open>
  A world in which the database refuses the insert into \<open>sends\<close>, and one in which it
  refuses every statement.
\<close>

definition auditDownWorld :: world where
  "auditDownWorld =
     calmWorld\<lparr>d1_error := (\<lambda>s. if s = InsertSend then Some ''D1_ERROR'' else None)\<rparr>"

definition storeDownWorld :: world where
  "storeDownWorld = calmWorld\<lparr>d1_error := (\<lambda>s. Some ''D1_ERROR'')\<rparr>"

definition testEnv :: Env where
  "testEnv = \<lparr>GEMINI_API_KEY = ''test-gemini-key'', RESEND_API_KEY = ''test-resend-key''\<rparr>"

definition emptyDb :: D1Database where
  "emptyDb = \<lparr>rate_limits = [], sends = []\<rparr>"

text \<open>
  A database with three senders, seen from the clock of \<open>calmWorld\<close>: one with two sends
  in a window opened 100 seconds ago, one with five sends in such a window, and one with
  five sends in a window opened 90000 seconds ago, more than 24 hours.
\<close>

definition threeSenders :: D1Database where
  "threeSenders =
     \<lparr>rate_limits =
        [\<lparr>rl_sender_hash = ''fresh'', rl_send_count = 2, rl_window_start = 1699999900\<rparr>,
         \<lparr>rl_sender_hash = ''full'', rl_send_count = 5, rl_window_start = 1699999900\<rparr>,
         \<lparr>rl_sender_hash = ''stale'', rl_send_count = 5, rl_window_start = 1699910000\<rparr>],
      sends = []\<rparr>"

text \<open>
  A database in which the sender of the examples (whose hash is \<open>ab01\<close> in \<open>calmWorld\<close>)
  has five sends in a window opened 100 seconds ago.
\<close>

definition cappedDb :: D1Database where
  "cappedDb =
     \<lparr>rate_limits =
        [\<lparr>rl_sender_hash = ''ab01'', rl_send_count = 5, rl_window_start = 1699999900\<rparr>],
      sends = []\<rparr>"

definition thanks :: "string jsval" where
  "thanks =
     JObject [(''message'', JString ''Thank you''),
              (''recipient_email'', JString ''recipient@example.com''),
              (''context_tag'', JString ''mentor''),
              (''sender_token'', JString ''token-123'')]"

text \<open>The same payload with another message, and the two requests that carry them.\<close>

definition thanksAgain :: "string jsval" where
  "thanksAgain =
     JObject [(''message'', JString ''You changed my life''),
              (''recipient_email'', JString ''recipient@example.com''),
              (''context_tag'', JString ''mentor''),
              (''sender_token'', JString ''token-123'')]"

definition sendThanks :: Request where
  "sendThanks = \<lparr>http_method = ''POST'', pathname = ''/send'', json = Some thanks\<rparr>"

definition sendThanksAgain :: Request where
  "sendThanksAgain = \<lparr>http_method = ''POST'', pathname = ''/send'', json = Some thanksAgain\<rparr>"

text \<open>A payload with a malformed address and no sender token.\<close>

definition noToken :: "string jsval" where
  "noToken =
     JObject [(''message'', JString ''Thank you''),
              (''recipient_email'', JString ''not-an-email''),
              (''context_tag'', JString ''mentor'')]"

section \<open>The regular-expression matcher\<close>

lemma test_Many1:
  "test (Many1 p # r) s \<longleftrightarrow>
     (\<exists>u v. s = u @ v \<and> u \<noteq> [] \<and> (\<forall>c\<in>set u. p c) \<and> test r v)"
proof (induction s)
  case Nil
  then show ?case by simp
next
  case (Cons c cs)
  show ?case
  proof
    assume "test (Many1 p # r) (c # cs)"
    then have pc: "p c" and alt: "test r cs \<or> test (Many1 p # r) cs" by simp_all
    from alt show "\<exists>u v. c # cs = u @ v \<and> u \<noteq> [] \<and> (\<forall>c\<in>set u. p c) \<and> test r v"
    proof
      assume "test r cs"
      with pc have "c # cs = [c] @ cs \<and> [c] \<noteq> [] \<and> (\<forall>x\<in>set [c]. p x) \<and> test r cs"
        by simp
      then show ?thesis by blast
    next
      assume "test (Many1 p # r) cs"
      with Cons.IH obtain u v where "cs = u @ v" "u \<noteq> []" "\<forall>x\<in>set u. p x" "test r v"
        by blast
      with pc have "c # cs = (c # u) @ v \<and> c # u \<noteq> [] \<and> (\<forall>x\<in>set (c # u). p x) \<and> test r v"
        by simp
      then show ?thesis by blast
    qed
  next
    assume "\<exists>u v. c # cs = u @ v \<and> u \<noteq> [] \<and> (\<forall>c\<in>set u. p c) \<and> test r v"
    then obtain u v where uv: "c # cs = u @ v" "u \<noteq> []" "\<forall>x\<in>set u. p x" "test r v"
      by blast
    then obtain u' where u: "u = c # u'" "cs = u' @ v" by (cases u) auto
    show "test (Many1 p # r) (c # cs)"
    proof (cases "u' = []")
      case True
      with u uv show ?thesis by simp
    next
      case False
      with u uv have "test (Many1 p # r) cs" using Cons.IH by auto
      with u uv show ?thesis by simp
    qed
  qed
qed

lemma test_One:
  "test (One p # r) s \<longleftrightarrow> (\<exists>c v. s = c # v \<and> p c \<and> test r v)"
  by (cases s) auto

section \<open>Addresses and domains\<close>

lemma toLowerChar_not_upper: "toLowerChar c \<notin> set upperLetters"
  by (simp add: toLowerChar_def lowerLetters_def upperLetters_def)

lemma toLowerChar_idem: "toLowerChar (toLowerChar c) = toLowerChar c"
  by (simp add: toLowerChar_def lowerLetters_def upperLetters_def)

text \<open>An accepted address is a local part, one \<open>@\<close>, and a domain with a dot inside.\<close>

lemma isValidEmail_shape:
  assumes "isValidEmail e"
  shows "\<exists>l d. e = l @ CHR ''@'' # d \<and> l \<noteq> [] \<and> d \<noteq> [] \<and>
           CHR ''@'' \<notin> set l \<and> CHR ''@'' \<notin> set d \<and>
           (\<forall>c\<in>set e. \<not> isWhiteSpace c)"
proof -
  from assms obtain l v1 where 1: "e = l @ v1" "l \<noteq> []" "\<forall>c\<in>set l. notSpaceAt c"
    "test [One (\<lambda>c. c = CHR ''@''), Many1 notSpaceAt, One (\<lambda>c. c = CHR ''.''), Many1 notSpaceAt] v1"
    unfolding isValidEmail_def emailRegex_def test_Many1 by blast
  then obtain v2 where 2: "v1 = CHR ''@'' # v2"
    "test [Many1 notSpaceAt, One (\<lambda>c. c = CHR ''.''), Many1 notSpaceAt] v2"
    unfolding test_One by blast
  then obtain d1 v3 where 3: "v2 = d1 @ v3" "d1 \<noteq> []" "\<forall>c\<in>set d1. notSpaceAt c"
    "test [One (\<lambda>c. c = CHR ''.''), Many1 notSpaceAt] v3"
    unfolding test_Many1 by blast
  then obtain v4 where 4: "v3 = CHR ''.'' # v4" "test [Many1 notSpaceAt] v4"
    unfolding test_One by blast
  then obtain d2 v5 where 5: "v4 = d2 @ v5" "d2 \<noteq> []" "\<forall>c\<in>set d2. notSpaceAt c" "test [] v5"
    unfolding test_Many1 by blast
  then have v5: "v5 = []" by simp
  have "e = l @ CHR ''@'' # (d1 @ CHR ''.'' # d2)" using 1 2 3 4 5 v5 by simp
  moreover have "CHR ''@'' \<notin> set l" using 1 by (auto simp: notSpaceAt_def)
  moreover have "CHR ''@'' \<notin> set (d1 @ CHR ''.'' # d2)" using 3 5 by (auto simp: notSpaceAt_def)
  moreover have "d1 @ CHR ''.'' # d2 \<noteq> []" by simp
  moreover have "\<forall>c\<in>set (l @ CHR ''@'' # (d1 @ CHR ''.'' # d2)). \<not> isWhiteSpace c"
  proof -
    have at: "\<not> isWhiteSpace (CHR ''@'')" and dot: "\<not> isWhiteSpace (CHR ''.'')"
      by (simp_all add: isWhiteSpace_def)
    have "\<forall>c\<in>set l \<union> set d1 \<union> set d2. \<not> isWhiteSpace c"
      using 1 3 5 by (auto simp: notSpaceAt_def)
    with at dot show ?thesis by auto
  qed
  ultimately show ?thesis using 1(2) by blast
qed

lemma split_no_sep: "sep \<notin> set s \<Longrightarrow> split sep s = [s]"
  by (induction s) auto

lemma split_first: "sep \<notin> set l \<Longrightarrow> split sep (l @ sep # d) = l # split sep d"
  by (induction l) auto

text \<open>
  C9. For every string that \<open>isValidEmail\<close> accepts, \<open>extractDomain\<close> returns a domain that
  is not empty and is lower-cased: the string is a non-empty local part, exactly one
  \<open>@\<close>, and a non-empty rest, and the function returns that rest in lower case.
\<close>

theorem extractDomain_of_valid_email:
  assumes "isValidEmail email"
  shows "(\<exists>l d. email = l @ CHR ''@'' # d \<and> l \<noteq> [] \<and> d \<noteq> [] \<and>
            CHR ''@'' \<notin> set l \<and> CHR ''@'' \<notin> set d \<and> extractDomain email = toLowerCase d) \<and>
         extractDomain email \<noteq> [] \<and>
         toLowerCase (extractDomain email) = extractDomain email \<and>
         (\<forall>c\<in>set (extractDomain email). c \<notin> set upperLetters)"
proof -
  from assms obtain l d where e: "email = l @ CHR ''@'' # d" "l \<noteq> []" "d \<noteq> []"
    "CHR ''@'' \<notin> set l" "CHR ''@'' \<notin> set d"
    using isValidEmail_shape by blast
  then have "split (CHR ''@'') email = [l, d]" by (simp add: split_first split_no_sep)
  then have dom: "extractDomain email = toLowerCase d" by (simp add: extractDomain_def)
  with e have "\<exists>l d. email = l @ CHR ''@'' # d \<and> l \<noteq> [] \<and> d \<noteq> [] \<and>
            CHR ''@'' \<notin> set l \<and> CHR ''@'' \<notin> set d \<and> extractDomain email = toLowerCase d"
    by blast
  moreover from dom e have "extractDomain email \<noteq> []" by (simp add: toLowerCase_def)
  moreover from dom have "toLowerCase (extractDomain email) = extractDomain email"
    by (simp add: toLowerCase_def toLowerChar_idem)
  moreover from dom have "\<forall>c\<in>set (extractDomain email). c \<notin> set upperLetters"
    by (auto simp: toLowerCase_def toLowerChar_not_upper)
  ultimately show ?thesis by blast
qed

theorem extractDomain_of_valid_email_witness:
  "isValidEmail ''Ann@Example.COM'' \<and> extractDomain ''Ann@Example.COM'' = ''example.com'' \<and>
   extractDomain ''Ann@Example.COM'' \<noteq> [] \<and>
   toLowerCase (extractDomain ''Ann@Example.COM'') = extractDomain ''Ann@Example.COM''"
proof -
  have h: "isValidEmail ''Ann@Example.COM''"
    by (simp add: isValidEmail_def emailRegex_def notSpaceAt_def isWhiteSpace_def)
  have v: "extractDomain ''Ann@Example.COM'' = ''example.com''"
    by (simp add: extractDomain_def toLowerCase_def toLowerChar_def lowerLetters_def
        upperLetters_def)
  have t: "extractDomain ''Ann@Example.COM'' \<noteq> [] \<and>
      toLowerCase (extractDomain ''Ann@Example.COM'') = extractDomain ''Ann@Example.COM'' \<and>
      (\<forall>c\<in>set (extractDomain ''Ann@Example.COM''). c \<notin> set upperLetters)"
    using extractDomain_of_valid_email [OF h] by (rule conjunct2)
  from t have "extractDomain ''Ann@Example.COM'' \<noteq> []"
    and "toLowerCase (extractDomain ''Ann@Example.COM'') = extractDomain ''Ann@Example.COM''"
    by blast+
  with h v show ?thesis by blast
qed

section \<open>Validation\<close>

lemma dropWhile_none: "\<forall>c\<in>set xs. \<not> P c \<Longrightarrow> dropWhile P xs = xs"
  by (cases xs) auto

lemma trim_no_space: "\<forall>c\<in>set s. \<not> isWhiteSpace c \<Longrightarrow> trim s = s"
  by (simp add: trim_def dropWhile_none)

lemma valid_tag_not_blank: "isValidContextTag t \<Longrightarrow> trim t \<noteq> []"
proof -
  assume "isValidContextTag t"
  then have "\<forall>c\<in>set t. \<not> isWhiteSpace c" and "t \<noteq> []"
    by (auto simp: isValidContextTag_def VALID_CONTEXT_TAGS_def isWhiteSpace_def)
  then show ?thesis by (simp add: trim_no_space)
qed

lemma valid_email_not_blank: "isValidEmail e \<Longrightarrow> trim e \<noteq> []"
  using isValidEmail_shape [of e] trim_no_space [of e] by auto

lemma email_check_iff:
  "(\<not> missing v \<and> isValidEmail (str v)) \<longleftrightarrow>
     (case v of JString e \<Rightarrow> isValidEmail e | _ \<Rightarrow> False)"
  by (cases v) (auto simp: missing_def str_def dest: valid_email_not_blank)

lemma tag_check_iff:
  "(\<not> missing v \<and> isValidContextTag (str v)) \<longleftrightarrow>
     (case v of JString t \<Rightarrow> isValidContextTag t | _ \<Rightarrow> False)"
  by (cases v) (auto simp: missing_def str_def dest: valid_tag_not_blank)

lemma accepted_code:
  "(\<exists>d. validateRequest b = Inr d) \<longleftrightarrow>
     truthy b \<and> typeof b = ''object'' \<and>
     \<not> missing (field b ''message'') \<and> length (str (field b ''message'')) \<le> MAX_MESSAGE_LENGTH \<and>
     (\<not> missing (field b ''recipient_email'') \<and> isValidEmail (str (field b ''recipient_email''))) \<and>
     (\<not> missing (field b ''context_tag'') \<and> isValidContextTag (str (field b ''context_tag''))) \<and>
     \<not> missing (field b ''sender_token'')"
  by (auto simp: validateRequest_def)

lemma accepted_spec:
  "first_violated b = None \<longleftrightarrow>
     truthy b \<and> typeof b = ''object'' \<and>
     \<not> missing (field b ''message'') \<and> length (str (field b ''message'')) \<le> MAX_MESSAGE_LENGTH \<and>
     (case field b ''recipient_email'' of JString e \<Rightarrow> isValidEmail e | _ \<Rightarrow> False) \<and>
     (case field b ''context_tag'' of JString t \<Rightarrow> isValidContextTag t | _ \<Rightarrow> False) \<and>
     \<not> missing (field b ''sender_token'')"
  by (auto simp: first_violated_def spec_order_def split: jsval.splits)

lemma accepted_iff: "(\<exists>d. validateRequest b = Inr d) \<longleftrightarrow> first_violated b = None"
  unfolding accepted_code accepted_spec email_check_iff tag_check_iff ..

lemma validateRequest_find:
  "validateRequest b =
     (case find (\<lambda>(violated, reason). violated b) checks_in_order of
        Some (violated, reason) \<Rightarrow> Inl reason
      | None \<Rightarrow>
          Inr \<lparr>message = trim (str (field b ''message'')),
               recipient_email = toLowerCase (trim (str (field b ''recipient_email''))),
               context_tag = str (field b ''context_tag''),
               sender_token = trim (str (field b ''sender_token''))\<rparr>)"
  by (simp add: validateRequest_def checks_in_order_def)

lemma validateRequest_thanks:
  "validateRequest thanks =
     Inr \<lparr>message = ''Thank you'', recipient_email = ''recipient@example.com'',
          context_tag = ''mentor'', sender_token = ''token-123''\<rparr>"
  by (simp add: validateRequest_def thanks_def field_def missing_def str_def trim_def
      isWhiteSpace_def MAX_MESSAGE_LENGTH_def isValidEmail_def emailRegex_def notSpaceAt_def
      isValidContextTag_def VALID_CONTEXT_TAGS_def toLowerCase_def toLowerChar_def
      upperLetters_def lowerLetters_def)

text \<open>
  C6, as the specification states it, fails: on a payload whose address is malformed and
  whose sender token is missing, the first violated check in the stated order is the one
  on the recipient, and the validator reports the sender token.
\<close>

theorem validateRequest_stated_order_counterexample:
  "first_violated noToken = Some RecipientOk \<and>
   validateRequest noToken = Inl ''Sender token is required.''"
proof
  show "first_violated noToken = Some RecipientOk"
    by (simp add: first_violated_def spec_order_def noToken_def field_def missing_def trim_def
        isWhiteSpace_def str_def MAX_MESSAGE_LENGTH_def isValidEmail_def emailRegex_def
        notSpaceAt_def)
  show "validateRequest noToken = Inl ''Sender token is required.''"
    by (simp add: validateRequest_def noToken_def field_def missing_def trim_def isWhiteSpace_def)
qed

text \<open>
  C6, amended. The validator fails fast on the first violated check in this order: the
  payload is an object; message, recipient, tag and sender token are, each in turn, a
  string that is not blank; the message is within the maximum length; the recipient
  matches the address pattern; the tag is one of the eight. It accepts exactly the
  payloads that pass the five checks of the specification, and returns the request with
  its strings trimmed and the address lower-cased.
\<close>

theorem validateRequest_checks_in_order:
  "validateRequest b =
     (case find (\<lambda>(violated, reason). violated b) checks_in_order of
        Some (violated, reason) \<Rightarrow> Inl reason
      | None \<Rightarrow>
          Inr \<lparr>message = trim (str (field b ''message'')),
               recipient_email = toLowerCase (trim (str (field b ''recipient_email''))),
               context_tag = str (field b ''context_tag''),
               sender_token = trim (str (field b ''sender_token''))\<rparr>) \<and>
   ((\<exists>d. validateRequest b = Inr d) \<longleftrightarrow> first_violated b = None)"
  using validateRequest_find [of b] accepted_iff [of b] by (rule conjI)

theorem validateRequest_checks_in_order_witness:
  "find (\<lambda>(violated, reason). violated noToken) checks_in_order =
     Some (\<lambda>b. missing (field b ''sender_token''), ''Sender token is required.'') \<and>
   validateRequest noToken = Inl ''Sender token is required.'' \<and>
   first_violated noToken \<noteq> None"
proof -
  have f: "find (\<lambda>(violated, reason). violated noToken) checks_in_order =
     Some (\<lambda>b. missing (field b ''sender_token''), ''Sender token is required.'')"
    by (simp add: checks_in_order_def noToken_def field_def missing_def trim_def isWhiteSpace_def)
  note t = validateRequest_checks_in_order [of noToken]
  have v: "validateRequest noToken = Inl ''Sender token is required.''"
    using t [THEN conjunct1] by (simp add: f)
  have a: "(\<exists>d. validateRequest noToken = Inr d) \<longleftrightarrow> first_violated noToken = None"
    using t by (rule conjunct2)
  from v have "\<not> (\<exists>d. validateRequest noToken = Inr d)" by simp
  with a have "first_violated noToken \<noteq> None" by blast
  with f v show ?thesis by blast
qed

section \<open>Routing\<close>

lemma handleSend_status:
  "status (fst (handleSend w env db d)) \<in> {200, 400, 429, 500}"
  by (simp add: handleSend_def Let_def errorResponse_def jsonResponse_def
      split: sum.split prod.split)

lemma fetch_OPTIONS:
  "http_method r = ''OPTIONS'' \<Longrightarrow>
   fetch w env db r =
     (\<lparr>status = 204,
       headers = [(''Access-Control-Allow-Origin'', ''*''),
                  (''Access-Control-Allow-Methods'', ''POST, OPTIONS''),
                  (''Access-Control-Allow-Headers'', ''Content-Type''),
                  (''Access-Control-Max-Age'', ''86400'')],
       body = NoBody\<rparr>, db, [])"
  by (simp add: fetch_def corsHeaders_def)

lemma fetch_elsewhere:
  "http_method r \<noteq> ''OPTIONS'' \<Longrightarrow> http_method r \<noteq> ''POST'' \<or> pathname r \<noteq> ''/send'' \<Longrightarrow>
   fetch w env db r = (\<lparr>status = 404, headers = [], body = TextBody ''Not Found''\<rparr>, db, [])"
  by (auto simp: fetch_def)

lemma fetch_send_status:
  "http_method r = ''POST'' \<Longrightarrow> pathname r = ''/send'' \<Longrightarrow>
   status (fst (fetch w env db r)) \<in> {200, 400, 429, 500}"
  using handleSend_status
  by (auto simp: fetch_def errorResponse_def jsonResponse_def split: option.split sum.split)

lemma fetch_204: "status (fst (fetch w env db r)) = 204 \<longleftrightarrow> http_method r = ''OPTIONS''"
proof (cases "http_method r = ''OPTIONS''")
  case True
  then show ?thesis by (simp add: fetch_OPTIONS)
next
  case False
  show ?thesis
  proof (cases "http_method r \<noteq> ''POST'' \<or> pathname r \<noteq> ''/send''")
    case True
    with False show ?thesis by (simp add: fetch_elsewhere)
  next
    case False
    then have "status (fst (fetch w env db r)) \<in> {200, 400, 429, 500}"
      using fetch_send_status by blast
    with False show ?thesis by auto
  qed
qed

lemma fetch_404:
  "status (fst (fetch w env db r)) = 404 \<longleftrightarrow>
     http_method r \<noteq> ''OPTIONS'' \<and> (http_method r \<noteq> ''POST'' \<or> pathname r \<noteq> ''/send'')"
proof (cases "http_method r = ''OPTIONS''")
  case True
  then show ?thesis by (simp add: fetch_OPTIONS)
next
  case False
  show ?thesis
  proof (cases "http_method r \<noteq> ''POST'' \<or> pathname r \<noteq> ''/send''")
    case True
    with False show ?thesis by (simp add: fetch_elsewhere)
  next
    case False
    then have "status (fst (fetch w env db r)) \<in> {200, 400, 429, 500}"
      using fetch_send_status by blast
    with False show ?thesis by auto
  qed
qed

text \<open>
  C5, as the specification states it, fails: an OPTIONS request for a path other than
  \<open>/send\<close> is not answered 404, it is answered 204 like the preflight of \<open>/send\<close>.
\<close>

theorem fetch_OPTIONS_elsewhere_counterexample:
  "status (fst (fetch calmWorld testEnv emptyDb
      \<lparr>http_method = ''OPTIONS'', pathname = ''/other'', json = None\<rparr>)) = 204 \<and>
   status (fst (fetch calmWorld testEnv emptyDb
      \<lparr>http_method = ''OPTIONS'', pathname = ''/other'', json = None\<rparr>)) \<noteq> 404"
  by (simp add: fetch_def)

text \<open>
  C5, amended. The handler answers 204 with the CORS headers exactly when the method is
  OPTIONS, whatever the path, and 404 exactly when the request is neither an OPTIONS
  request nor POST \<open>/send\<close>; neither answer touches the database.
\<close>

theorem fetch_routing:
  "(http_method r = ''OPTIONS'' \<longrightarrow>
      fetch w env db r =
        (\<lparr>status = 204,
          headers = [(''Access-Control-Allow-Origin'', ''*''),
                     (''Access-Control-Allow-Methods'', ''POST, OPTIONS''),
                     (''Access-Control-Allow-Headers'', ''Content-Type''),
                     (''Access-Control-Max-Age'', ''86400'')],
          body = NoBody\<rparr>, db, [])) \<and>
   (http_method r \<noteq> ''OPTIONS'' \<and> (http_method r \<noteq> ''POST'' \<or> pathname r \<noteq> ''/send'') \<longrightarrow>
      fetch w env db r = (\<lparr>status = 404, headers = [], body = TextBody ''Not Found''\<rparr>, db, [])) \<and>
   (status (fst (fetch w env db r)) = 204 \<longleftrightarrow> http_method r = ''OPTIONS'') \<and>
   (status (fst (fetch w env db r)) = 404 \<longleftrightarrow>
      http_method r \<noteq> ''OPTIONS'' \<and> (http_method r \<noteq> ''POST'' \<or> pathname r \<noteq> ''/send''))"
  using fetch_OPTIONS [of r w env db] fetch_elsewhere [of r w env db]
    fetch_204 [of w env db r] fetch_404 [of w env db r]
  by blast

theorem fetch_routing_witness:
  "fetch calmWorld testEnv emptyDb \<lparr>http_method = ''OPTIONS'', pathname = ''/send'', json = None\<rparr> =
     (\<lparr>status = 204,
       headers = [(''Access-Control-Allow-Origin'', ''*''),
                  (''Access-Control-Allow-Methods'', ''POST, OPTIONS''),
                  (''Access-Control-Allow-Headers'', ''Content-Type''),
                  (''Access-Control-Max-Age'', ''86400'')],
       body = NoBody\<rparr>, emptyDb, []) \<and>
   fetch calmWorld testEnv emptyDb \<lparr>http_method = ''GET'', pathname = ''/send'', json = None\<rparr> =
     (\<lparr>status = 404, headers = [], body = TextBody ''Not Found''\<rparr>, emptyDb, [])"
  using fetch_routing [of "\<lparr>http_method = ''OPTIONS'', pathname = ''/send'', json = None\<rparr>"
      calmWorld testEnv emptyDb]
    fetch_routing [of "\<lparr>http_method = ''GET'', pathname = ''/send'', json = None\<rparr>"
      calmWorld testEnv emptyDb]
  by simp

section \<open>Rate limiting\<close>

lemma find_snoc:
  "find P (xs @ [x]) = (case find P xs of None \<Rightarrow> (if P x then Some x else None) | Some y \<Rightarrow> Some y)"
  by (induction xs) auto

lemma find_map_keyed:
  assumes "\<And>r. key (f r) = key r"
  shows "find (\<lambda>r. key r = k) (map f rs) = map_option f (find (\<lambda>r. key r = k) rs)"
  using assms by (induction rs) auto

lemma select_insert:
  "selectRateLimit (insertRateLimit db h now) h' =
     (case selectRateLimit db h' of
        None \<Rightarrow> if h = h' then Some \<lparr>rl_sender_hash = h, rl_send_count = 1, rl_window_start = now\<rparr>
                else None
      | Some r \<Rightarrow> Some r)"
  by (simp add: selectRateLimit_def insertRateLimit_def find_snoc)

lemma select_reset:
  "selectRateLimit (resetRateLimit db h now) h' =
     map_option (\<lambda>r. if rl_sender_hash r = h
                      then r\<lparr>rl_send_count := 1, rl_window_start := now\<rparr> else r)
       (selectRateLimit db h')"
  unfolding selectRateLimit_def resetRateLimit_def
  by (simp add: find_map_keyed [where key = rl_sender_hash])

lemma select_increment:
  "selectRateLimit (incrementRateLimit db h) h' =
     map_option (\<lambda>r. if rl_sender_hash r = h then r\<lparr>rl_send_count := rl_send_count r + 1\<rparr> else r)
       (selectRateLimit db h')"
  unfolding selectRateLimit_def incrementRateLimit_def
  by (simp add: find_map_keyed [where key = rl_sender_hash])

lemma find_holds: "find P xs = Some x \<Longrightarrow> P x"
  by (induction xs) (auto split: if_splits)

lemma select_key: "selectRateLimit db h = Some r \<Longrightarrow> rl_sender_hash r = h"
  unfolding selectRateLimit_def by (rule find_holds)

lemma frame_insert: "sends (insertRateLimit db h now) = sends db"
  by (simp add: insertRateLimit_def)

lemma frame_reset: "sends (resetRateLimit db h now) = sends db"
  by (simp add: resetRateLimit_def)

lemma frame_increment: "sends (incrementRateLimit db h) = sends db"
  by (simp add: incrementRateLimit_def)

lemma checkRateLimit_new:
  assumes "d1_error w SelectRateLimit = None" "d1_error w InsertRateLimit = None"
    and "selectRateLimit db h = None"
  shows "checkRateLimit w db h = Inr (True, insertRateLimit db h (d1_now w))"
  using assms by (simp add: checkRateLimit_def)

lemma checkRateLimit_expired:
  assumes "d1_error w SelectRateLimit = None" "d1_error w ResetRateLimit = None"
    and "selectRateLimit db h = Some r" "rl_window_start r < clock w - 24 * 60 * 60"
  shows "checkRateLimit w db h = Inr (True, resetRateLimit db h (d1_now w))"
  using assms by (simp add: checkRateLimit_def RATE_LIMIT_WINDOW_HOURS_def)

lemma checkRateLimit_under:
  assumes "d1_error w SelectRateLimit = None" "d1_error w IncrementRateLimit = None"
    and "selectRateLimit db h = Some r" "\<not> rl_window_start r < clock w - 24 * 60 * 60"
    and "rl_send_count r < 5"
  shows "checkRateLimit w db h = Inr (True, incrementRateLimit db h)"
  using assms by (simp add: checkRateLimit_def RATE_LIMIT_WINDOW_HOURS_def MAX_SENDS_PER_WINDOW_def)

lemma checkRateLimit_capped:
  assumes "d1_error w SelectRateLimit = None"
    and "selectRateLimit db h = Some r" "\<not> rl_window_start r < clock w - 24 * 60 * 60"
    and "\<not> rl_send_count r < 5"
  shows "checkRateLimit w db h = Inr (False, db)"
  using assms by (simp add: checkRateLimit_def RATE_LIMIT_WINDOW_HOURS_def MAX_SENDS_PER_WINDOW_def)

text \<open>
  C3. \<open>checkRateLimit\<close> is a fixed-window counter with a window of 24 hours and a cap of
  5. When the database carries out the statements: with no record for the identifier
  it creates one with count 1 and the window starting now, and allows; with a record
  whose window started before now minus 24 hours it resets the record to count 1 and a
  window starting now, and allows; with a record of a current window and a count below 5
  it adds one to the count, and allows; otherwise it denies. The cut-off is taken from
  the clock of the worker and the new start from the clock of the database; the records
  of other identifiers and the audit log stay as they are.
\<close>

theorem checkRateLimit_fixed_window:
  assumes quiet: "\<forall>s. d1_error w s = None"
  shows
    "(selectRateLimit db h = None \<longrightarrow>
        (\<exists>db'. checkRateLimit w db h = Inr (True, db') \<and>
           selectRateLimit db' h =
             Some \<lparr>rl_sender_hash = h, rl_send_count = 1, rl_window_start = d1_now w\<rparr> \<and>
           (\<forall>h'. h' \<noteq> h \<longrightarrow> selectRateLimit db' h' = selectRateLimit db h') \<and>
           sends db' = sends db)) \<and>
     (\<forall>r. selectRateLimit db h = Some r \<and> rl_window_start r < clock w - 24 * 60 * 60 \<longrightarrow>
        (\<exists>db'. checkRateLimit w db h = Inr (True, db') \<and>
           selectRateLimit db' h = Some (r\<lparr>rl_send_count := 1, rl_window_start := d1_now w\<rparr>) \<and>
           (\<forall>h'. h' \<noteq> h \<longrightarrow> selectRateLimit db' h' = selectRateLimit db h') \<and>
           sends db' = sends db)) \<and>
     (\<forall>r. selectRateLimit db h = Some r \<and> \<not> rl_window_start r < clock w - 24 * 60 * 60 \<and>
          rl_send_count r < 5 \<longrightarrow>
        (\<exists>db'. checkRateLimit w db h = Inr (True, db') \<and>
           selectRateLimit db' h = Some (r\<lparr>rl_send_count := rl_send_count r + 1\<rparr>) \<and>
           (\<forall>h'. h' \<noteq> h \<longrightarrow> selectRateLimit db' h' = selectRateLimit db h') \<and>
           sends db' = sends db)) \<and>
     (\<forall>r. selectRateLimit db h = Some r \<and> \<not> rl_window_start r < clock w - 24 * 60 * 60 \<and>
          \<not> rl_send_count r < 5 \<longrightarrow>
        checkRateLimit w db h = Inr (False, db))"
proof (intro conjI allI impI)
  assume none: "selectRateLimit db h = None"
  have "checkRateLimit w db h = Inr (True, insertRateLimit db h (d1_now w))"
    using quiet none by (simp add: checkRateLimit_new)
  moreover have "selectRateLimit (insertRateLimit db h (d1_now w)) h =
      Some \<lparr>rl_sender_hash = h, rl_send_count = 1, rl_window_start = d1_now w\<rparr>"
    using none by (simp add: select_insert)
  moreover have "\<forall>h'. h' \<noteq> h \<longrightarrow>
      selectRateLimit (insertRateLimit db h (d1_now w)) h' = selectRateLimit db h'"
    by (simp add: select_insert split: option.split)
  ultimately show "\<exists>db'. checkRateLimit w db h = Inr (True, db') \<and>
           selectRateLimit db' h =
             Some \<lparr>rl_sender_hash = h, rl_send_count = 1, rl_window_start = d1_now w\<rparr> \<and>
           (\<forall>h'. h' \<noteq> h \<longrightarrow> selectRateLimit db' h' = selectRateLimit db h') \<and>
           sends db' = sends db"
    using frame_insert by blast
next
  fix r
  assume a: "selectRateLimit db h = Some r \<and> rl_window_start r < clock w - 24 * 60 * 60"
  then have key: "rl_sender_hash r = h" by (auto dest: select_key)
  have "checkRateLimit w db h = Inr (True, resetRateLimit db h (d1_now w))"
    using quiet a by (simp add: checkRateLimit_expired)
  moreover have "selectRateLimit (resetRateLimit db h (d1_now w)) h =
      Some (r\<lparr>rl_send_count := 1, rl_window_start := d1_now w\<rparr>)"
    using a key by (simp add: select_reset)
  moreover have "\<forall>h'. h' \<noteq> h \<longrightarrow>
      selectRateLimit (resetRateLimit db h (d1_now w)) h' = selectRateLimit db h'"
  proof (intro allI impI)
    fix h' assume "h' \<noteq> h"
    then show "selectRateLimit (resetRateLimit db h (d1_now w)) h' = selectRateLimit db h'"
      by (cases "selectRateLimit db h'") (auto simp: select_reset dest: select_key)
  qed
  ultimately show "\<exists>db'. checkRateLimit w db h = Inr (True, db') \<and>
           selectRateLimit db' h = Some (r\<lparr>rl_send_count := 1, rl_window_start := d1_now w\<rparr>) \<and>
           (\<forall>h'. h' \<noteq> h \<longrightarrow> selectRateLimit db' h' = selectRateLimit db h') \<and>
           sends db' = sends db"
    using frame_reset by blast
next
  fix r
  assume a: "selectRateLimit db h = Some r \<and> \<not> rl_window_start r < clock w - 24 * 60 * 60 \<and>
          rl_send_count r < 5"
  then have key: "rl_sender_hash r = h" by (auto dest: select_key)
  have "checkRateLimit w db h = Inr (True, incrementRateLimit db h)"
    using quiet a by (simp add: checkRateLimit_under)
  moreover have "selectRateLimit (incrementRateLimit db h) h =
      Some (r\<lparr>rl_send_count := rl_send_count r + 1\<rparr>)"
    using a key by (simp add: select_increment)
  moreover have "\<forall>h'. h' \<noteq> h \<longrightarrow>
      selectRateLimit (incrementRateLimit db h) h' = selectRateLimit db h'"
  proof (intro allI impI)
    fix h' assume "h' \<noteq> h"
    then show "selectRateLimit (incrementRateLimit db h) h' = selectRateLimit db h'"
      by (cases "selectRateLimit db h'") (auto simp: select_increment dest: select_key)
  qed
  ultimately show "\<exists>db'. checkRateLimit w db h = Inr (True, db') \<and>
           selectRateLimit db' h = Some (r\<lparr>rl_send_count := rl_send_count r + 1\<rparr>) \<and>
           (\<forall>h'. h' \<noteq> h \<longrightarrow> selectRateLimit db' h' = selectRateLimit db h') \<and>
           sends db' = sends db"
    using frame_increment by blast
next
  fix r
  assume a: "selectRateLimit db h = Some r \<and> \<not> rl_window_start r < clock w - 24 * 60 * 60 \<and>
          \<not> rl_send_count r < 5"
  show "checkRateLimit w db h = Inr (False, db)"
    using quiet a by (simp add: checkRateLimit_capped)
qed

theorem checkRateLimit_fixed_window_witness:
  "(\<exists>db'. checkRateLimit calmWorld threeSenders ''new'' = Inr (True, db') \<and>
      selectRateLimit db' ''new'' =
        Some \<lparr>rl_sender_hash = ''new'', rl_send_count = 1, rl_window_start = 1700000000\<rparr>) \<and>
   (\<exists>db'. checkRateLimit calmWorld threeSenders ''stale'' = Inr (True, db') \<and>
      selectRateLimit db' ''stale'' =
        Some \<lparr>rl_sender_hash = ''stale'', rl_send_count = 1, rl_window_start = 1700000000\<rparr>) \<and>
   (\<exists>db'. checkRateLimit calmWorld threeSenders ''fresh'' = Inr (True, db') \<and>
      selectRateLimit db' ''fresh'' =
        Some \<lparr>rl_sender_hash = ''fresh'', rl_send_count = 3, rl_window_start = 1699999900\<rparr>) \<and>
   checkRateLimit calmWorld threeSenders ''full'' = Inr (False, threeSenders)"
proof -
  have q: "\<forall>s. d1_error calmWorld s = None" by (simp add: calmWorld_def)
  have c: "clock calmWorld = 1700000000" "d1_now calmWorld = 1700000000"
    by (simp_all add: calmWorld_def)
  have new: "selectRateLimit threeSenders ''new'' = None"
    by (simp add: selectRateLimit_def threeSenders_def)
  have stale: "selectRateLimit threeSenders ''stale'' =
      Some \<lparr>rl_sender_hash = ''stale'', rl_send_count = 5, rl_window_start = 1699910000\<rparr>"
    by (simp add: selectRateLimit_def threeSenders_def)
  have fresh: "selectRateLimit threeSenders ''fresh'' =
      Some \<lparr>rl_sender_hash = ''fresh'', rl_send_count = 2, rl_window_start = 1699999900\<rparr>"
    by (simp add: selectRateLimit_def threeSenders_def)
  have full: "selectRateLimit threeSenders ''full'' =
      Some \<lparr>rl_sender_hash = ''full'', rl_send_count = 5, rl_window_start = 1699999900\<rparr>"
    by (simp add: selectRateLimit_def threeSenders_def)
  note t = checkRateLimit_fixed_window [OF q]
  have 1: "\<exists>db'. checkRateLimit calmWorld threeSenders ''new'' = Inr (True, db') \<and>
      selectRateLimit db' ''new'' =
        Some \<lparr>rl_sender_hash = ''new'', rl_send_count = 1, rl_window_start = 1700000000\<rparr>"
    using t [of threeSenders "''new''", THEN conjunct1] new c by auto
  have 2: "\<exists>db'. checkRateLimit calmWorld threeSenders ''stale'' = Inr (True, db') \<and>
      selectRateLimit db' ''stale'' =
        Some \<lparr>rl_sender_hash = ''stale'', rl_send_count = 1, rl_window_start = 1700000000\<rparr>"
    using t [of threeSenders "''stale''", THEN conjunct2, THEN conjunct1] stale c by auto
  have 3: "\<exists>db'. checkRateLimit calmWorld threeSenders ''fresh'' = Inr (True, db') \<and>
      selectRateLimit db' ''fresh'' =
        Some \<lparr>rl_sender_hash = ''fresh'', rl_send_count = 3, rl_window_start = 1699999900\<rparr>"
    using t [of threeSenders "''fresh''", THEN conjunct2, THEN conjunct2, THEN conjunct1] fresh c
    by auto
  have 4: "checkRateLimit calmWorld threeSenders ''full'' = Inr (False, threeSenders)"
    using t [of threeSenders "''full''", THEN conjunct2, THEN conjunct2, THEN conjunct2] full c
    by auto
  from 1 2 3 4 show ?thesis by blast
qed

text \<open>
  C7. When the record that \<open>checkRateLimit\<close> reads for the identifier has a current
  window and a count at or above 5, the function denies and the database after the call
  is the database before it: no statement that writes is issued, so the record keeps
  its count and its window start.
\<close>

theorem checkRateLimit_at_cap:
  assumes "d1_error w SelectRateLimit = None"
    and "selectRateLimit db h = Some r"
    and "\<not> rl_window_start r < clock w - 24 * 60 * 60"
    and "5 \<le> rl_send_count r"
  shows "checkRateLimit w db h = Inr (False, db)"
  using assms by (simp add: checkRateLimit_capped)

theorem checkRateLimit_at_cap_witness:
  "selectRateLimit threeSenders ''full'' =
     Some \<lparr>rl_sender_hash = ''full'', rl_send_count = 5, rl_window_start = 1699999900\<rparr> \<and>
   checkRateLimit calmWorld threeSenders ''full'' = Inr (False, threeSenders)"
proof -
  have q: "d1_error calmWorld SelectRateLimit = None" by (simp add: calmWorld_def)
  have full: "selectRateLimit threeSenders ''full'' =
      Some \<lparr>rl_sender_hash = ''full'', rl_send_count = 5, rl_window_start = 1699999900\<rparr>"
    by (simp add: selectRateLimit_def threeSenders_def)
  have "checkRateLimit calmWorld threeSenders ''full'' = Inr (False, threeSenders)"
    by (rule checkRateLimit_at_cap [OF q full]) (simp_all add: calmWorld_def)
  with full show ?thesis by (rule conjI)
qed

section \<open>Content filter\<close>

lemma startsWith_iff: "startsWith s t \<longleftrightarrow> (\<exists>q. s = t @ q)"
  by (induction s t rule: startsWith.induct) auto

lemma includes_str_iff: "includes_str s t \<longleftrightarrow> (\<exists>p q. s = p @ t @ q)"
proof (induction s)
  case Nil
  then show ?case by auto
next
  case (Cons c cs)
  show ?case
  proof
    assume "includes_str (c # cs) t"
    then consider "startsWith (c # cs) t" | "includes_str cs t" by auto
    then show "\<exists>p q. c # cs = p @ t @ q"
    proof cases
      case 1
      then obtain q where "c # cs = [] @ t @ q" by (auto simp: startsWith_iff)
      then show ?thesis by blast
    next
      case 2
      with Cons.IH obtain p q where "cs = p @ t @ q" by blast
      then have "c # cs = (c # p) @ t @ q" by simp
      then show ?thesis by blast
    qed
  next
    assume "\<exists>p q. c # cs = p @ t @ q"
    then obtain p q where pq: "c # cs = p @ t @ q" by blast
    show "includes_str (c # cs) t"
    proof (cases p)
      case Nil
      with pq have "startsWith (c # cs) t" by (auto simp: startsWith_iff)
      then show ?thesis by simp
    next
      case (Cons a p')
      with pq have "cs = p' @ t @ q" by simp
      with Cons.IH have "includes_str cs t" by blast
      then show ?thesis by simp
    qed
  qed
qed

subsection \<open>The marker in code units\<close>

lemma js_REJECT: "js ''REJECT'' = [0x52, 0x45, 0x4A, 0x45, 0x43, 0x54]"
  by (simp add: js_def)

lemma js_reject: "js ''reject'' = [0x72, 0x65, 0x6A, 0x65, 0x63, 0x74]"
  by (simp add: js_def)

lemma list_all2_six:
  "list_all2 P u [x1, x2, x3, x4, x5, x6] \<longleftrightarrow>
     (\<exists>a b c d e f. u = [a, b, c, d, e, f] \<and> P a x1 \<and> P b x2 \<and> P c x3 \<and> P d x4 \<and> P e x5 \<and> P f x6)"
  by (auto simp: list_all2_Cons2)

lemma map_six:
  "map g u = [x1, x2, x3, x4, x5, x6] \<longleftrightarrow>
     (\<exists>a b c d e f. u = [a, b, c, d, e, f] \<and> g a = x1 \<and> g b = x2 \<and> g c = x3 \<and> g d = x4 \<and>
        g e = x5 \<and> g f = x6)"
  by (auto simp: map_eq_Cons_conv)

lemma reject_letters:
  "isRejectAnyCase u \<longleftrightarrow>
     (\<exists>a b c d e f. u = [a, b, c, d, e, f] \<and>
        (a = 0x72 \<or> a = 0x52) \<and> (b = 0x65 \<or> b = 0x45) \<and>
        (c = 0x6A \<or> c = 0x4A) \<and> (d = 0x65 \<or> d = 0x45) \<and>
        (e = 0x63 \<or> e = 0x43) \<and> (f = 0x74 \<or> f = 0x54))"
  unfolding isRejectAnyCase_def js_reject js_REJECT by (simp add: list_all2_six)

lemma reject_length: "isRejectAnyCase u \<Longrightarrow> length u = 6"
  unfolding reject_letters by (elim exE conjE) simp

lemma upperUnit_if:
  "upperUnit c = (if 0x61 \<le> c \<and> c \<le> 0x7A then c - 0x20 else c)"
proof -
  have 1: "(0x61 \<le> unat c) = (0x61 \<le> c)" by (simp add: word_le_nat_alt)
  have 2: "(unat c \<le> 0x7A) = (c \<le> 0x7A)" by (simp add: word_le_nat_alt)
  show ?thesis
    unfolding upperUnit_def asciiUpper_def 1 2 by (simp add: word_le_nat_alt unat_sub)
qed

lemma upper_R: "upperUnit c = 0x52 \<longleftrightarrow> c = 0x72 \<or> c = 0x52"
  unfolding upperUnit_if by (auto; unat_arith)
lemma upper_E: "upperUnit c = 0x45 \<longleftrightarrow> c = 0x65 \<or> c = 0x45"
  unfolding upperUnit_if by (auto; unat_arith)
lemma upper_J: "upperUnit c = 0x4A \<longleftrightarrow> c = 0x6A \<or> c = 0x4A"
  unfolding upperUnit_if by (auto; unat_arith)
lemma upper_C: "upperUnit c = 0x43 \<longleftrightarrow> c = 0x63 \<or> c = 0x43"
  unfolding upperUnit_if by (auto; unat_arith)
lemma upper_T: "upperUnit c = 0x54 \<longleftrightarrow> c = 0x74 \<or> c = 0x54"
  unfolding upperUnit_if by (auto; unat_arith)

lemma upper_is_REJECT: "map upperUnit u = js ''REJECT'' \<longleftrightarrow> isRejectAnyCase u"
  unfolding js_REJECT reject_letters map_six upper_R upper_E upper_J upper_C upper_T ..

lemma reject_shape:
  assumes "isRejectAnyCase u"
  shows "u \<noteq> [] \<and> \<not> isWhiteSpaceUnit (hd u) \<and> \<not> isWhiteSpaceUnit (last u)"
proof -
  from assms obtain a b c d e f where u: "u = [a, b, c, d, e, f]"
    and a: "a = 0x72 \<or> a = 0x52" and f: "f = 0x74 \<or> f = 0x54"
    unfolding reject_letters by blast
  from a have "\<not> isWhiteSpaceUnit a" by (auto simp: isWhiteSpaceUnit_def)
  moreover from f have "\<not> isWhiteSpaceUnit f" by (auto simp: isWhiteSpaceUnit_def)
  ultimately show ?thesis using u by simp
qed

lemma reject_ascii:
  assumes "isRejectAnyCase u"
  shows "isAscii u"
proof -
  from assms obtain a b c d e f where u: "u = [a, b, c, d, e, f]"
    and a: "a = 0x72 \<or> a = 0x52" and b: "b = 0x65 \<or> b = 0x45"
    and c: "c = 0x6A \<or> c = 0x4A" and d: "d = 0x65 \<or> d = 0x45"
    and e: "e = 0x63 \<or> e = 0x43" and f: "f = 0x74 \<or> f = 0x54"
    unfolding reject_letters by blast
  from a have "a < 0x80" by auto
  moreover from b have "b < 0x80" by auto
  moreover from c have "c < 0x80" by auto
  moreover from d have "d < 0x80" by auto
  moreover from e have "e < 0x80" by auto
  moreover from f have "f < 0x80" by auto
  ultimately show ?thesis unfolding u isAscii_def by simp
qed

lemma containsReject_iff:
  "containsRejectAnyCase t \<longleftrightarrow> (\<exists>p u q. t = p @ u @ q \<and> isRejectAnyCase u)"
proof (induction t)
  case Nil
  have "\<not> isRejectAnyCase []" using reject_length by fastforce
  then show ?case by simp
next
  case (Cons c cs)
  show ?case
  proof
    assume "containsRejectAnyCase (c # cs)"
    then consider "isRejectAnyCase (take 6 (c # cs))" | "containsRejectAnyCase cs" by auto
    then show "\<exists>p u q. c # cs = p @ u @ q \<and> isRejectAnyCase u"
    proof cases
      case 1
      have "c # cs = [] @ take 6 (c # cs) @ drop 6 (c # cs)" by simp
      with 1 show ?thesis by blast
    next
      case 2
      with Cons.IH obtain p u q where "cs = p @ u @ q" "isRejectAnyCase u" by blast
      then have "c # cs = (c # p) @ u @ q \<and> isRejectAnyCase u" by simp
      then show ?thesis by blast
    qed
  next
    assume "\<exists>p u q. c # cs = p @ u @ q \<and> isRejectAnyCase u"
    then obtain p u q where pq: "c # cs = p @ u @ q" and u: "isRejectAnyCase u" by blast
    show "containsRejectAnyCase (c # cs)"
    proof (cases p)
      case Nil
      with pq have "take 6 (c # cs) = take 6 (u @ q)" by simp
      also have "\<dots> = u" using reject_length [OF u] by simp
      finally show ?thesis using u by simp
    next
      case (Cons a p')
      with pq have "cs = p' @ u @ q" by simp
      with u Cons.IH have "containsRejectAnyCase cs" by blast
      then show ?thesis by simp
    qed
  qed
qed

subsection \<open>Trimming\<close>

lemma dropWhile_keeps:
  "u \<noteq> [] \<Longrightarrow> \<not> P (hd u) \<Longrightarrow> \<exists>p'. dropWhile P (p @ u @ q) = p' @ u @ q"
proof (induction p)
  case Nil
  then have "dropWhile P (u @ q) = [] @ u @ q" by (cases u) auto
  then show ?case by (metis append_Nil)
next
  case (Cons a p)
  show ?case
  proof (cases "P a")
    case True
    with Cons show ?thesis by simp
  next
    case False
    then have "dropWhile P ((a # p) @ u @ q) = (a # p) @ u @ q" by simp
    then show ?thesis by blast
  qed
qed

lemma trimUnits_keeps:
  assumes "u \<noteq> []" "\<not> isWhiteSpaceUnit (hd u)" "\<not> isWhiteSpaceUnit (last u)"
  shows "\<exists>p' q'. trimUnits (p @ u @ q) = p' @ u @ q'"
proof -
  from assms obtain p' where 1: "dropWhile isWhiteSpaceUnit (p @ u @ q) = p' @ u @ q"
    using dropWhile_keeps by blast
  have "rev u \<noteq> []" "\<not> isWhiteSpaceUnit (hd (rev u))" using assms by (simp_all add: hd_rev)
  then obtain q' where 2:
    "dropWhile isWhiteSpaceUnit (rev q @ rev u @ rev p') = q' @ rev u @ rev p'"
    using dropWhile_keeps by blast
  have "trimUnits (p @ u @ q) = rev (dropWhile isWhiteSpaceUnit (rev q @ rev u @ rev p'))"
    by (simp add: trimUnits_def 1)
  also have "\<dots> = p' @ u @ rev q'" by (simp add: 2)
  finally show ?thesis by blast
qed

lemma rev_dropWhile_takeWhile:
  "d = rev (dropWhile P (rev d)) @ rev (takeWhile P (rev d))"
proof -
  have "rev (rev d) = rev (takeWhile P (rev d) @ dropWhile P (rev d))"
    by (simp only: takeWhile_dropWhile_id)
  then show ?thesis by (simp only: rev_rev_ident rev_append)
qed

lemma trimUnits_inside: "\<exists>a b. t = a @ trimUnits t @ b"
proof -
  let ?d = "dropWhile isWhiteSpaceUnit t"
  have "t = takeWhile isWhiteSpaceUnit t @ ?d" by simp
  also have "?d = trimUnits t @ rev (takeWhile isWhiteSpaceUnit (rev ?d))"
    unfolding trimUnits_def by (rule rev_dropWhile_takeWhile)
  finally show ?thesis by blast
qed

lemma isAscii_append: "isAscii (a @ b) \<longleftrightarrow> isAscii a \<and> isAscii b"
  by (simp add: isAscii_def)

lemma trimUnits_ascii:
  assumes "isAscii t"
  shows "isAscii (trimUnits t)"
proof -
  obtain a b where ab: "t = a @ trimUnits t @ b" using trimUnits_inside by blast
  have "isAscii (a @ trimUnits t @ b)" by (subst ab [symmetric]) (rule assms)
  then show ?thesis by (simp only: isAscii_append)
qed

subsection \<open>Upper-casing\<close>

lemma upperCaseWith_Nil: "upperCaseWith f [] = []"
  by (simp add: upperCaseWith_def)


lemma ascii_not_surrogate: "(u :: codeunit) < 0x80 \<Longrightarrow> \<not> (0xD800 \<le> u) \<and> \<not> (0xDC00 \<le> u)"
  by unat_arith

lemma codePoints_Cons:
  "\<not> (0xD800 \<le> u \<and> u \<le> 0xDBFF) \<Longrightarrow> codePoints (u # s) = unat u # codePoints s"
  by (cases s) auto

lemma codePoints_append:
  "(q \<noteq> [] \<Longrightarrow> \<not> (0xDC00 \<le> hd q \<and> hd q \<le> 0xDFFF)) \<Longrightarrow>
     codePoints (p @ q) = codePoints p @ codePoints q"
proof (induction p rule: codePoints.induct)
  case 1
  then show ?case by simp
next
  case (2 u)
  then show ?case by (cases q) auto
next
  case (3 u v us)
  then show ?case by auto
qed

lemma upperCaseWith_append:
  "(q \<noteq> [] \<Longrightarrow> \<not> (0xDC00 \<le> hd q \<and> hd q \<le> 0xDFFF)) \<Longrightarrow>
     upperCaseWith f (p @ q) = upperCaseWith f p @ upperCaseWith f q"
  by (simp add: upperCaseWith_def codePoints_append)

lemma upperOnAscii_iff: "upperOnAscii f \<longleftrightarrow> (\<forall>cp<0x80. f cp = [asciiUpper cp])"
  by (auto simp: upperOnAscii_def list_all_iff)

lemma codeUnits_upper: "codeUnits (asciiUpper (unat (c :: codeunit))) = [upperUnit c]"
proof -
  have "unat c < 65536" using unsigned_less [of c, where 'a = nat] by simp
  moreover have "asciiUpper (unat c) \<le> unat c" by (simp add: asciiUpper_def)
  ultimately have "asciiUpper (unat c) < 0x10000" by simp
  then show ?thesis by (simp add: codeUnits_def upperUnit_def)
qed

lemma upperCaseWith_ascii_Cons:
  assumes "upperOnAscii f" "c < 0x80"
  shows "upperCaseWith f (c # s) = upperUnit c # upperCaseWith f s"
proof -
  from assms(2) have "unat c < 0x80" by (simp add: word_less_nat_alt)
  with assms(1) have f: "f (unat c) = [asciiUpper (unat c)]" by (simp add: upperOnAscii_iff)
  from assms(2) have "\<not> (0xD800 \<le> c \<and> c \<le> 0xDBFF)" using ascii_not_surrogate by blast
  then have "codePoints (c # s) = unat c # codePoints s" by (rule codePoints_Cons)
  then show ?thesis by (simp add: upperCaseWith_def f codeUnits_upper)
qed

lemma upperCaseWith_ascii_append:
  assumes "upperOnAscii f"
  shows "isAscii u \<Longrightarrow> upperCaseWith f (u @ q) = map upperUnit u @ upperCaseWith f q"
proof (induction u)
  case Nil
  then show ?case by simp
next
  case (Cons c u)
  then have c: "c < 0x80" and u: "isAscii u" by (simp_all add: isAscii_def)
  have "upperCaseWith f ((c # u) @ q) = upperUnit c # upperCaseWith f (u @ q)"
    using upperCaseWith_ascii_Cons [OF assms c] by simp
  with Cons.IH [OF u] show ?case by simp
qed

lemma upperCaseWith_ascii:
  assumes "upperOnAscii f" "isAscii s"
  shows "upperCaseWith f s = map upperUnit s"
  using upperCaseWith_ascii_append [OF assms, of "[]"] by (simp add: upperCaseWith_Nil)

lemma upperCaseWith_reject:
  assumes "upperOnAscii f" "isRejectAnyCase u"
  shows "upperCaseWith f (p @ u @ q) = upperCaseWith f p @ js ''REJECT'' @ upperCaseWith f q"
proof -
  from assms(2) have shape: "u \<noteq> []" and asc: "isAscii u"
    using reject_shape reject_ascii by blast+
  from shape asc have "hd u < 0x80" by (cases u) (simp_all add: isAscii_def)
  then have "\<not> (0xDC00 \<le> hd u \<and> hd u \<le> 0xDFFF)" using ascii_not_surrogate by blast
  with shape have "\<not> (0xDC00 \<le> hd (u @ q) \<and> hd (u @ q) \<le> 0xDFFF)" by simp
  then have "upperCaseWith f (p @ u @ q) = upperCaseWith f p @ upperCaseWith f (u @ q)"
    by (rule upperCaseWith_append)
  also have "upperCaseWith f (u @ q) = map upperUnit u @ upperCaseWith f q"
    using assms(1) asc by (rule upperCaseWith_ascii_append)
  also from assms(2) have "map upperUnit u = js ''REJECT''" by (simp only: upper_is_REJECT)
  finally show ?thesis .
qed

lemma map_eq_append3:
  assumes "map g s = a @ b @ c"
  shows "\<exists>p u q. s = p @ u @ q \<and> map g u = b"
proof -
  from assms obtain p r where 1: "s = p @ r" "map g r = b @ c"
    by (metis map_eq_append_conv)
  then obtain u q where 2: "r = u @ q" "map g u = b"
    by (metis map_eq_append_conv)
  from 1 2 have "s = p @ u @ q \<and> map g u = b" by simp
  then show ?thesis by blast
qed

lemma marker_deny:
  assumes f: "upperOnAscii (upperMapping w)" and "containsRejectAnyCase t"
  shows "includes_str (toUpperCase w (trimUnits t)) (js ''REJECT'')"
proof -
  from assms(2) obtain p u q where t: "t = p @ u @ q" and u: "isRejectAnyCase u"
    unfolding containsReject_iff by blast
  from u have "u \<noteq> []" "\<not> isWhiteSpaceUnit (hd u)" "\<not> isWhiteSpaceUnit (last u)"
    using reject_shape by blast+
  then obtain p' q' where tr: "trimUnits (p @ u @ q) = p' @ u @ q'"
    using trimUnits_keeps by blast
  have "toUpperCase w (trimUnits t) =
      upperCaseWith (upperMapping w) p' @ js ''REJECT'' @ upperCaseWith (upperMapping w) q'"
    unfolding toUpperCase_def t tr using f u by (rule upperCaseWith_reject)
  then have "\<exists>a b. toUpperCase w (trimUnits t) = a @ js ''REJECT'' @ b" by (intro exI)
  then show ?thesis unfolding includes_str_iff .
qed

lemma marker_ascii:
  assumes f: "upperOnAscii (upperMapping w)" and asc: "isAscii t"
    and inc: "includes_str (toUpperCase w (trimUnits t)) (js ''REJECT'')"
  shows "containsRejectAnyCase t"
proof -
  have up: "toUpperCase w (trimUnits t) = map upperUnit (trimUnits t)"
    unfolding toUpperCase_def using f trimUnits_ascii [OF asc] by (rule upperCaseWith_ascii)
  from inc obtain p' q' where "map upperUnit (trimUnits t) = p' @ js ''REJECT'' @ q'"
    unfolding includes_str_iff up by (elim exE)
  then have "\<exists>p u q. trimUnits t = p @ u @ q \<and> map upperUnit u = js ''REJECT''"
    by (rule map_eq_append3)
  then obtain p u q where tr: "trimUnits t = p @ u @ q" and upu: "map upperUnit u = js ''REJECT''"
    by (elim exE conjE)
  from upu have u: "isRejectAnyCase u" by (simp only: upper_is_REJECT)
  obtain a b where ab: "t = a @ trimUnits t @ b" using trimUnits_inside by blast
  have "t = (a @ p) @ u @ (q @ b)"
  proof -
    note ab
    also have "a @ trimUnits t @ b = a @ (p @ u @ q) @ b" by (simp only: tr)
    also have "\<dots> = (a @ p) @ u @ (q @ b)" by simp
    finally show ?thesis .
  qed
  with u have "\<exists>p u q. t = p @ u @ q \<and> isRejectAnyCase u" by blast
  then show ?thesis unfolding containsReject_iff .
qed

lemma marker_iff:
  assumes "upperOnAscii (upperMapping w)" "isAscii t"
  shows "includes_str (toUpperCase w (trimUnits t)) (js ''REJECT'') \<longleftrightarrow> containsRejectAnyCase t"
  using marker_deny [OF assms(1)] marker_ascii [OF assms] by blast

subsection \<open>The verdict\<close>

lemma marker_not_empty: "js ''REJECT'' \<noteq> []"
  by (simp add: js_def)

lemma filterMessage_text:
  assumes "gemini w k m = Responded r" "ok r" "http_json r = Some data"
    and "candidateText data = Some (JString t)"
  shows "filterMessage w m k = (\<not> includes_str (toUpperCase w (trimUnits t)) (js ''REJECT''))"
  using assms by (simp add: filterMessage_def verdictText_def marker_not_empty)









subsection \<open>The examples\<close>

lemma js_distinct:
  "js ''candidates'' \<noteq> js ''content''" "js ''candidates'' \<noteq> js ''parts''"
  "js ''candidates'' \<noteq> js ''text''" "js ''content'' \<noteq> js ''parts''"
  "js ''content'' \<noteq> js ''text''" "js ''parts'' \<noteq> js ''text''"
  by (simp_all add: js_def)

lemma candidateText_answerWith: "candidateText (answerWith t) = Some (JString t)"
  by (simp add: candidateText_def answerWith_def optProp_def optFirst_def)

lemma candidateText_allowAnswer: "candidateText allowAnswer = Some (JString (js ''ALLOW''))"
  unfolding allowAnswer_def by (rule candidateText_answerWith)

lemma candidateText_rejectAnswer:
  "candidateText rejectAnswer = Some (JString (js '' Reject.\<newline>''))"
  unfolding rejectAnswer_def by (rule candidateText_answerWith)

lemma sampleMapping_ascii: "upperOnAscii sampleMapping"
  unfolding upperOnAscii_iff by (simp add: sampleMapping_def)

lemma upperMapping_examples:
  "upperMapping calmWorld = sampleMapping" "upperMapping rejectingWorld = sampleMapping"
  "upperMapping diaeresisWorld = sampleMapping"
  by (simp_all add: calmWorld_def rejectingWorld_def diaeresisWorld_def)

lemma ascii_examples: "isAscii (js ''ALLOW'')" "isAscii (js '' Reject.\<newline>'')"
  by (simp_all add: isAscii_def js_def)

lemma reject_examples:
  "\<not> containsRejectAnyCase (js ''ALLOW'')" "containsRejectAnyCase (js '' Reject.\<newline>'')"
  "\<not> containsRejectAnyCase diaeresisText"
  by (simp_all add: js_def diaeresisText_def isRejectAnyCase_def)

lemma trimUnits_diaeresis: "trimUnits diaeresisText = diaeresisText"
  by (simp add: trimUnits_def diaeresisText_def js_def isWhiteSpaceUnit_def)

lemma upperCase_diaeresis:
  "upperCaseWith sampleMapping diaeresisText = js ''REJECT'' @ [0x308]"
  by (simp add: upperCaseWith_def diaeresisText_def js_def sampleMapping_def asciiUpper_def
      codeUnits_def)

lemma gemini_examples:
  "gemini calmWorld k m =
     Responded \<lparr>http_status = 200, http_text = Some [], http_json = Some allowAnswer\<rparr>"
  "gemini rejectingWorld k m =
     Responded \<lparr>http_status = 200, http_text = Some [], http_json = Some rejectAnswer\<rparr>"
  "gemini diaeresisWorld k m =
     Responded \<lparr>http_status = 200, http_text = Some [],
                http_json = Some (answerWith diaeresisText)\<rparr>"
  by (simp_all add: calmWorld_def rejectingWorld_def diaeresisWorld_def)

lemma ok_200: "ok \<lparr>http_status = 200, http_text = Some [], http_json = Some j\<rparr>"
  by (simp add: ok_def)

lemma json_200:
  "http_json \<lparr>http_status = 200, http_text = Some [], http_json = Some j\<rparr> = Some j"
  by simp

lemma filterMessage_allowAnswer:
  assumes "gemini w k m =
      Responded \<lparr>http_status = 200, http_text = Some [], http_json = Some allowAnswer\<rparr>"
    and "upperMapping w = sampleMapping"
  shows "filterMessage w m k"
proof -
  have f: "upperOnAscii (upperMapping w)" unfolding assms(2) by (rule sampleMapping_ascii)
  have "\<not> includes_str (toUpperCase w (trimUnits (js ''ALLOW''))) (js ''REJECT'')"
    using marker_ascii [OF f ascii_examples(1)] reject_examples(1) by blast
  then show ?thesis
    using filterMessage_text [OF assms(1) ok_200 json_200 candidateText_allowAnswer] by simp
qed

lemma filterMessage_rejectAnswer:
  assumes "gemini w k m =
      Responded \<lparr>http_status = 200, http_text = Some [], http_json = Some rejectAnswer\<rparr>"
    and "upperMapping w = sampleMapping"
  shows "\<not> filterMessage w m k"
proof -
  have f: "upperOnAscii (upperMapping w)" unfolding assms(2) by (rule sampleMapping_ascii)
  have "includes_str (toUpperCase w (trimUnits (js '' Reject.\<newline>''))) (js ''REJECT'')"
    using f reject_examples(2) by (rule marker_deny)
  then show ?thesis
    using filterMessage_text [OF assms(1) ok_200 json_200 candidateText_rejectAnswer] by simp
qed

lemma filterMessage_calm: "filterMessage calmWorld m k"
  using gemini_examples(1) upperMapping_examples(1) by (rule filterMessage_allowAnswer)

lemma filterMessage_rejecting: "\<not> filterMessage rejectingWorld m k"
  using gemini_examples(2) upperMapping_examples(2) by (rule filterMessage_rejectAnswer)

lemma toUpperCase_diaeresis:
  "toUpperCase diaeresisWorld (trimUnits diaeresisText) = js ''REJECT'' @ [0x308]"
  by (simp only: toUpperCase_def upperMapping_examples trimUnits_diaeresis upperCase_diaeresis)

lemma filterMessage_diaeresis: "\<not> filterMessage diaeresisWorld m k"
proof -
  have "toUpperCase diaeresisWorld (trimUnits diaeresisText) = [] @ js ''REJECT'' @ [0x308]"
    by (simp only: toUpperCase_diaeresis append_Nil)
  then have "\<exists>p q. toUpperCase diaeresisWorld (trimUnits diaeresisText) = p @ js ''REJECT'' @ q"
    by (intro exI)
  then have "includes_str (toUpperCase diaeresisWorld (trimUnits diaeresisText)) (js ''REJECT'')"
    unfolding includes_str_iff .
  then show ?thesis
    using filterMessage_text [OF gemini_examples(3) ok_200 json_200 candidateText_answerWith]
    by simp
qed



text \<open>
  C10, as stated, does not hold: the text \<open>rejec\<close> followed by U+1E97 is not empty and
  contains \<open>reject\<close> in no letter case (it has no \<open>t\<close> and no \<open>T\<close>), and
  \<open>toUpperCase\<close> turns its last code unit into \<open>T\<close> followed by U+0308, so the
  upper-cased text begins with \<open>REJECT\<close> and the message is denied.
\<close>

theorem filterMessage_verdict_counterexample:
  "gemini diaeresisWorld ''key'' ''Thank you'' =
     Responded \<lparr>http_status = 200, http_text = Some [],
                http_json = Some (answerWith diaeresisText)\<rparr> \<and>
   candidateText (answerWith diaeresisText) = Some (JString diaeresisText) \<and>
   diaeresisText = [0x72, 0x65, 0x6A, 0x65, 0x63, 0x1E97] \<and>
   \<not> containsRejectAnyCase diaeresisText \<and>
   upperMapping diaeresisWorld 0x1E97 = [0x54, 0x308] \<and>
   toUpperCase diaeresisWorld (trimUnits diaeresisText) = js ''REJECT'' @ [0x308] \<and>
   \<not> filterMessage diaeresisWorld ''Thank you'' ''key''"
proof -
  have "diaeresisText = [0x72, 0x65, 0x6A, 0x65, 0x63, 0x1E97]"
    by (simp add: diaeresisText_def js_def)
  moreover have "upperMapping diaeresisWorld 0x1E97 = [0x54, 0x308]"
    by (simp add: upperMapping_examples sampleMapping_def)
  ultimately show ?thesis
    using gemini_examples(3) [of "''key''" "''Thank you''"]
      candidateText_answerWith [of diaeresisText] reject_examples(3) toUpperCase_diaeresis
      filterMessage_diaeresis [of "''Thank you''" "''key''"]
    by (intro conjI)
qed

text \<open>
  C10, amended. For every successful answer of the classifier with the text \<open>t\<close>, the
  message is denied exactly when \<open>t\<close>, trimmed and upper-cased by \<open>toUpperCase\<close>,
  contains \<open>REJECT\<close>. Where the table of upper-case mappings is that of Unicode on the
  ASCII range, every text that contains \<open>reject\<close> in some letter case is denied,
  whatever else it says; and a text of ASCII characters only is denied exactly when it
  contains \<open>reject\<close> in some letter case, and allowed otherwise, whether or not it says
  \<open>ALLOW\<close>. Outside ASCII a text without \<open>reject\<close> can be denied, as above.
\<close>

theorem filterMessage_verdict:
  assumes "gemini w k m = Responded r" "ok r" "http_json r = Some data"
    and "candidateText data = Some (JString t)"
  shows "filterMessage w m k = (\<not> includes_str (toUpperCase w (trimUnits t)) (js ''REJECT'')) \<and>
         (upperOnAscii (upperMapping w) \<and> containsRejectAnyCase t \<longrightarrow> \<not> filterMessage w m k) \<and>
         (upperOnAscii (upperMapping w) \<and> isAscii t \<longrightarrow>
            filterMessage w m k = (\<not> containsRejectAnyCase t)) \<and>
         containsRejectAnyCase t = (\<exists>p u q. t = p @ u @ q \<and> isRejectAnyCase u)"
proof -
  note v = filterMessage_text [OF assms]
  have "upperOnAscii (upperMapping w) \<and> containsRejectAnyCase t \<longrightarrow> \<not> filterMessage w m k"
    unfolding v using marker_deny [of w t] by simp
  moreover have "upperOnAscii (upperMapping w) \<and> isAscii t \<longrightarrow>
      filterMessage w m k = (\<not> containsRejectAnyCase t)"
    unfolding v using marker_iff [of w t] by simp
  ultimately show ?thesis using v containsReject_iff [of t] by (intro conjI)
qed

theorem filterMessage_verdict_witness:
  "\<not> filterMessage rejectingWorld ''Thank you'' ''key'' \<and>
   containsRejectAnyCase (js '' Reject.\<newline>'') \<and>
   filterMessage calmWorld ''Thank you'' ''key'' \<and>
   \<not> containsRejectAnyCase (js ''ALLOW'') \<and>
   \<not> filterMessage diaeresisWorld ''Thank you'' ''key'' \<and>
   includes_str (toUpperCase diaeresisWorld (trimUnits diaeresisText)) (js ''REJECT'')"
proof -
  have f: "upperOnAscii (upperMapping calmWorld)" "upperOnAscii (upperMapping rejectingWorld)"
    by (simp_all only: upperMapping_examples sampleMapping_ascii)
  note r = filterMessage_verdict [where k = "''key''" and m = "''Thank you''",
      OF gemini_examples(2) ok_200 json_200 candidateText_rejectAnswer]
  note a = filterMessage_verdict [where k = "''key''" and m = "''Thank you''",
      OF gemini_examples(1) ok_200 json_200 candidateText_allowAnswer]
  note d = filterMessage_verdict [where k = "''key''" and m = "''Thank you''",
      OF gemini_examples(3) ok_200 json_200 candidateText_answerWith]
  have 1: "\<not> filterMessage rejectingWorld ''Thank you'' ''key''"
    using r [THEN conjunct2, THEN conjunct1] f(2) reject_examples(2) by simp
  have 2: "filterMessage calmWorld ''Thank you'' ''key''"
    using a [THEN conjunct2, THEN conjunct2, THEN conjunct1] f(1) ascii_examples(1)
      reject_examples(1) by simp
  have 3: "\<not> filterMessage diaeresisWorld ''Thank you'' ''key''"
    by (rule filterMessage_diaeresis)
  have 4: "includes_str (toUpperCase diaeresisWorld (trimUnits diaeresisText)) (js ''REJECT'')"
    using d [THEN conjunct1] 3 by simp
  from 1 reject_examples(2) 2 reject_examples(1) 3 4 show ?thesis by (intro conjI)
qed

section \<open>Delivery\<close>

lemma frame_step:
  "\<exists>pre post. \<forall>m. f m = pre @ e m @ post \<Longrightarrow> \<exists>pre post. \<forall>m. x @ f m = pre @ e m @ post"
proof -
  assume "\<exists>pre post. \<forall>m. f m = pre @ e m @ post"
  then obtain pre post where "\<forall>m. f m = pre @ e m @ post" by blast
  then have "\<forall>m. x @ f m = (x @ pre) @ e m @ post" by simp
  then show ?thesis by blast
qed

lemma frame_base: "\<exists>pre post. \<forall>m. e m @ r = pre @ e m @ post"
proof -
  have "\<forall>m. e m @ r = [] @ e m @ r" by simp
  then show ?thesis by blast
qed

lemma htmlBody_frame: "\<exists>pre post. \<forall>m. htmlBody d m = pre @ escapeHtml m @ post"
  unfolding htmlBody_def by (intro frame_step frame_base)

lemma plainTextBody_frame: "\<exists>pre post. \<forall>m. plainTextBody d m = pre @ m @ post"
  unfolding plainTextBody_def
  by (intro frame_step [where e = "\<lambda>m. m"] frame_base [where e = "\<lambda>m. m"])

lemma escapeHtml_entities: "escapeHtml m = concat (map htmlEntity m)"
proof -
  have "(\<lambda>c. if htmlSpecial c
             then (case map_of htmlEscapes c of Some e \<Rightarrow> e | None \<Rightarrow> ''undefined'')
             else [c]) = htmlEntity"
    by (rule ext) (simp add: htmlSpecial_def htmlEscapes_def htmlEntity_def)
  then show ?thesis by (simp add: escapeHtml_def replaceAll_def)
qed

lemma htmlEntity_clean:
  "x \<in> set (htmlEntity c) \<Longrightarrow>
     x \<noteq> CHR ''<'' \<and> x \<noteq> CHR ''>'' \<and> x \<noteq> CHR 0x22 \<and> x \<noteq> CHR 0x27"
  by (auto simp: htmlEntity_def split: if_splits)

lemma escapeHtml_clean:
  "\<forall>x\<in>set (escapeHtml m). x \<noteq> CHR ''<'' \<and> x \<noteq> CHR ''>'' \<and> x \<noteq> CHR 0x22 \<and> x \<noteq> CHR 0x27"
proof
  fix x assume "x \<in> set (escapeHtml m)"
  then obtain c where "x \<in> set (htmlEntity c)" by (auto simp: escapeHtml_entities)
  then show "x \<noteq> CHR ''<'' \<and> x \<noteq> CHR ''>'' \<and> x \<noteq> CHR 0x22 \<and> x \<noteq> CHR 0x27"
    by (rule htmlEntity_clean)
qed

lemma escapeHtml_plain: "\<forall>c\<in>set m. \<not> htmlSpecial c \<Longrightarrow> escapeHtml m = m"
  by (induction m) (auto simp: escapeHtml_def replaceAll_def)

text \<open>
  C8. For every message text, the HTML body of the email is a fixed text before, the
  escaped message, and a fixed text after, and the plain-text body is a fixed text
  before, the message as it is, and a fixed text after (fixed: the same for all messages
  to that recipient with that tag). Escaping replaces every \<open>&\<close>, \<open><\<close>, \<open>>\<close>, \<open>"\<close> and
  \<open>'\<close> by its entity and keeps every other character, so that none of \<open>< > " '\<close> is left
  in the escaped message.
\<close>

theorem email_bodies:
  \<open>(\<exists>pre post. \<forall>m. mail_html (renderEmail rcpt tag m) = pre @ escapeHtml m @ post) \<and>
   (\<exists>pre post. \<forall>m. mail_text (renderEmail rcpt tag m) = pre @ m @ post) \<and>
   escapeHtml msg = concat (map htmlEntity msg) \<and>
   (\<forall>x\<in>set (escapeHtml msg).
      x \<noteq> CHR ''<'' \<and> x \<noteq> CHR ''>'' \<and> x \<noteq> CHR 0x22 \<and> x \<noteq> CHR 0x27)\<close>
proof (intro conjI)
  show "\<exists>pre post. \<forall>m. mail_html (renderEmail rcpt tag m) = pre @ escapeHtml m @ post"
    using htmlBody_frame [of "displayNameOf tag"] by (simp add: renderEmail_def)
  show "\<exists>pre post. \<forall>m. mail_text (renderEmail rcpt tag m) = pre @ m @ post"
    using plainTextBody_frame [of "displayNameOf tag"] by (simp add: renderEmail_def)
  show "escapeHtml msg = concat (map htmlEntity msg)"
    by (rule escapeHtml_entities)
  show "\<forall>x\<in>set (escapeHtml msg).
      x \<noteq> CHR ''<'' \<and> x \<noteq> CHR ''>'' \<and> x \<noteq> CHR 0x22 \<and> x \<noteq> CHR 0x27"
    by (rule escapeHtml_clean)
qed

theorem email_bodies_witness:
  \<open>escapeHtml ''<a href="x">Tom & Jerry\'s</a>'' =
     ''&lt;a href=&quot;x&quot;&gt;Tom &amp; Jerry&#39;s&lt;/a&gt;'' \<and>
   (\<exists>pre post. mail_html (renderEmail ''recipient@example.com'' ''mentor''
        ''<a href="x">Tom & Jerry\'s</a>'') =
      pre @ ''&lt;a href=&quot;x&quot;&gt;Tom &amp; Jerry&#39;s&lt;/a&gt;'' @ post) \<and>
   (\<exists>pre post. mail_text (renderEmail ''recipient@example.com'' ''mentor''
        ''<a href="x">Tom & Jerry\'s</a>'') =
      pre @ ''<a href="x">Tom & Jerry\'s</a>'' @ post)\<close>
proof -
  note t = email_bodies [of "''recipient@example.com''" "''mentor''"
      \<open>''<a href="x">Tom & Jerry\'s</a>''\<close>]
  have e: \<open>escapeHtml ''<a href="x">Tom & Jerry\'s</a>'' =
     ''&lt;a href=&quot;x&quot;&gt;Tom &amp; Jerry&#39;s&lt;/a&gt;''\<close>
    using t [THEN conjunct2, THEN conjunct2, THEN conjunct1] by (simp add: htmlEntity_def)
  from t [THEN conjunct1] obtain pre post where
    "\<forall>m. mail_html (renderEmail ''recipient@example.com'' ''mentor'' m) = pre @ escapeHtml m @ post"
    by (elim exE)
  then have \<open>mail_html (renderEmail ''recipient@example.com'' ''mentor''
        ''<a href="x">Tom & Jerry\'s</a>'') =
      pre @ escapeHtml ''<a href="x">Tom & Jerry\'s</a>'' @ post\<close>
    by (rule spec)
  then have h: \<open>\<exists>pre post. mail_html (renderEmail ''recipient@example.com'' ''mentor''
        ''<a href="x">Tom & Jerry\'s</a>'') =
      pre @ ''&lt;a href=&quot;x&quot;&gt;Tom &amp; Jerry&#39;s&lt;/a&gt;'' @ post\<close>
    unfolding e by (intro exI)
  from t [THEN conjunct2, THEN conjunct1] obtain pre' post' where
    "\<forall>m. mail_text (renderEmail ''recipient@example.com'' ''mentor'' m) = pre' @ m @ post'"
    by (elim exE)
  then have \<open>mail_text (renderEmail ''recipient@example.com'' ''mentor''
        ''<a href="x">Tom & Jerry\'s</a>'') =
      pre' @ ''<a href="x">Tom & Jerry\'s</a>'' @ post'\<close>
    by (rule spec)
  then have p: \<open>\<exists>pre post. mail_text (renderEmail ''recipient@example.com'' ''mentor''
        ''<a href="x">Tom & Jerry\'s</a>'') =
      pre @ ''<a href="x">Tom & Jerry\'s</a>'' @ post\<close>
    by (intro exI)
  from e h p show ?thesis by (intro conjI)
qed

section \<open>The pipeline\<close>

lemma hash_calm: "hashString (sha256 calmWorld) s = ''ab01''"
  by (simp add: hashString_def calmWorld_def padStart_def hexDigit_def)

lemma validateRequest_thanksAgain:
  "validateRequest thanksAgain =
     Inr \<lparr>message = ''You changed my life'', recipient_email = ''recipient@example.com'',
          context_tag = ''mentor'', sender_token = ''token-123''\<rparr>"
  by (simp add: validateRequest_def thanksAgain_def field_def missing_def str_def trim_def
      isWhiteSpace_def MAX_MESSAGE_LENGTH_def isValidEmail_def emailRegex_def notSpaceAt_def
      isValidContextTag_def VALID_CONTEXT_TAGS_def toLowerCase_def toLowerChar_def
      upperLetters_def lowerLetters_def)

lemma checkRateLimit_sends: "checkRateLimit w db h = Inr (a, db1) \<Longrightarrow> sends db1 = sends db"
  by (auto simp: checkRateLimit_def Let_def insertRateLimit_def resetRateLimit_def
      incrementRateLimit_def split: option.splits if_splits)

lemma checkRateLimit_Inl: "checkRateLimit w db h = Inl e \<Longrightarrow> \<exists>s. d1_error w s = Some e"
  by (auto simp: checkRateLimit_def Let_def split: option.splits if_splits)

lemma checkRateLimit_db:
  "checkRateLimit w db h = Inr (a, db1) \<Longrightarrow>
     db1 = db \<or> db1 = insertRateLimit db h (d1_now w) \<or> db1 = resetRateLimit db h (d1_now w) \<or>
     db1 = incrementRateLimit db h"
  by (auto simp: checkRateLimit_def Let_def split: option.splits if_splits)

lemma sends_logSend:
  "sends (logSend w db h domain tag st) =
     (if d1_error w InsertSend = None
      then sends db @ [\<lparr>s_sender_hash = h, s_recipient_domain = domain, s_context_tag = tag,
                         s_status = st, s_created_at = d1_now w\<rparr>]
      else sends db)"
  by (simp add: logSend_def insertSend_def split: option.split)

lemma rate_limits_logSend: "rate_limits (logSend w db h domain tag st) = rate_limits db"
  by (simp add: logSend_def insertSend_def split: option.split)

lemma fetch_invalid_json:
  "http_method r = ''POST'' \<Longrightarrow> pathname r = ''/send'' \<Longrightarrow> json r = None \<Longrightarrow>
   fetch w env db r =
     (errorResponse validation_error ''Invalid JSON in request body.'' 400, db, [])"
  by (simp add: fetch_def)

lemma fetch_invalid:
  "http_method r = ''POST'' \<Longrightarrow> pathname r = ''/send'' \<Longrightarrow> json r = Some b \<Longrightarrow>
   validateRequest b = Inl reason \<Longrightarrow>
   fetch w env db r = (errorResponse validation_error reason 400, db, [])"
  by (simp add: fetch_def)

lemma fetch_valid:
  "http_method r = ''POST'' \<Longrightarrow> pathname r = ''/send'' \<Longrightarrow> json r = Some b \<Longrightarrow>
   validateRequest b = Inr d \<Longrightarrow>
   fetch w env db r = handleSend w env db d"
  by (simp add: fetch_def)

lemma handleSend_store_error:
  "checkRateLimit w db (hashString (sha256 w) (sender_token d)) = Inl e \<Longrightarrow>
   handleSend w env db d =
     (errorResponse server_error (''An unexpected error occurred: '' @ e) 500, db,
      [Hashed (sender_token d)])"
  by (simp add: handleSend_def Let_def)

lemma auditWrites_append: "auditWrites (xs @ ys) = auditWrites xs @ auditWrites ys"
  by (induction xs rule: auditWrites.induct) simp_all

lemma hashings_append: "hashings (xs @ ys) = hashings xs @ hashings ys"
  by (induction xs rule: hashings.induct) simp_all

lemma auditWrites_console: "auditWrites (map ConsoleMessage xs) = []"
  by (induction xs) simp_all

lemma hashings_console: "hashings (map ConsoleMessage xs) = []"
  by (induction xs) simp_all

lemma handleSend_outcome:
  assumes "checkRateLimit w db (hashString (sha256 w) (sender_token d)) = Inr (allowed, db1)"
  shows \<open>\<exists>resp st pre.
           handleSend w env db d =
             (resp,
              logSend w db1 (hashString (sha256 w) (sender_token d))
                (extractDomain (recipient_email d)) (context_tag d) st,
              pre @ [Logged (hashString (sha256 w) (sender_token d))
                       (extractDomain (recipient_email d)) (context_tag d) st]) \<and>
           auditWrites pre = [] \<and> hashings pre = [sender_token d] \<and>
           auditStatusFor resp = Some st \<and>
           (status resp = 429 \<and> st = Rejected \<and> \<not> allowed \<or>
            status resp = 400 \<and> st = Rejected \<and> allowed \<or>
            status resp = 500 \<and> st = Error \<and> allowed \<or>
            status resp = 200 \<and> st = Sent \<and> allowed) \<and>
            (\<not> allowed \<and> resp =
                 errorResponse rate_limited
                   ''You\'ve sent too many messages today. Please try again tomorrow.'' 429 \<and>
               st = Rejected \<or>
             allowed \<and> \<not> filterMessage w (message d) (GEMINI_API_KEY env) \<and> resp =
                 errorResponse message_rejected
                   ''This message doesn\'t appear to be expressing gratitude.'' 400 \<and>
               st = Rejected \<or>
             allowed \<and> filterMessage w (message d) (GEMINI_API_KEY env) \<and>
               \<not> sendEmail w (recipient_email d) (context_tag d) (message d)
                    (RESEND_API_KEY env) \<and> resp =
                 errorResponse server_error
                   ''Failed to send email. Please try again later.'' 500 \<and>
               st = Error \<or>
             allowed \<and> filterMessage w (message d) (GEMINI_API_KEY env) \<and>
               sendEmail w (recipient_email d) (context_tag d) (message d)
                 (RESEND_API_KEY env) \<and> resp = jsonResponse Success 200 \<and>
               st = Sent)\<close>
proof (cases allowed)
  case False
  with assms show ?thesis
    by (simp add: handleSend_def Let_def errorResponse_def jsonResponse_def
          auditWrites_append hashings_append auditWrites_console hashings_console)
next
  case True
  note allowed = this
  show ?thesis
  proof (cases "filterMessage w (message d) (GEMINI_API_KEY env)")
    case False
    with assms allowed show ?thesis
      by (simp add: handleSend_def Let_def errorResponse_def jsonResponse_def
          auditWrites_append hashings_append auditWrites_console hashings_console)
  next
    case True
    note passed = this
    show ?thesis
    proof (cases "sendEmail w (recipient_email d) (context_tag d) (message d) (RESEND_API_KEY env)")
      case False
      with assms allowed passed show ?thesis
        by (simp add: handleSend_def Let_def errorResponse_def jsonResponse_def
          auditWrites_append hashings_append auditWrites_console hashings_console)
    next
      case True
      with assms allowed passed show ?thesis
        by (simp add: handleSend_def Let_def errorResponse_def jsonResponse_def
          auditWrites_append hashings_append auditWrites_console hashings_console)
    qed
  qed
qed

text \<open>
  Where the message does go: to the classifier and, when the classifier allows, to the
  mail service; and the console receives its first 50 code units whenever the classifier
  answered with a body from which the verdict could be read.
\<close>

lemma message_to_console:
  assumes "checkRateLimit w db (hashString (sha256 w) (sender_token d)) = Inr (True, db1)"
    and "gemini w (GEMINI_API_KEY env) (message d) = Responded r" "ok r"
    and "http_json r = Some data" "verdictText w data = Some c"
  shows "ConsoleMessage (take 50 (message d)) \<in> set (snd (snd (handleSend w env db d)))"
  using assms by (simp add: handleSend_def Let_def messageLogged_def)

lemma handleSend_db_eq:
  assumes "recipient_email d' = recipient_email d" "context_tag d' = context_tag d"
    and "sender_token d' = sender_token d"
    and "filterMessage w (message d') (GEMINI_API_KEY env) =
         filterMessage w (message d) (GEMINI_API_KEY env)"
    and "sendEmail w (recipient_email d') (context_tag d') (message d') (RESEND_API_KEY env) =
         sendEmail w (recipient_email d) (context_tag d) (message d) (RESEND_API_KEY env)"
  shows "fst (snd (handleSend w env db d')) = fst (snd (handleSend w env db d))"
  using assms
  by (simp add: handleSend_def Let_def split: sum.split prod.split)

lemma handleSend_db_shape:
  "\<exists>dbx. (dbx = db \<or> dbx = insertRateLimit db (hashString (sha256 w) (sender_token d)) (d1_now w) \<or>
           dbx = resetRateLimit db (hashString (sha256 w) (sender_token d)) (d1_now w) \<or>
           dbx = incrementRateLimit db (hashString (sha256 w) (sender_token d))) \<and>
          (fst (snd (handleSend w env db d)) = dbx \<or>
           (\<exists>st. fst (snd (handleSend w env db d)) =
                  insertSend dbx (hashString (sha256 w) (sender_token d))
                    (extractDomain (recipient_email d)) (context_tag d) st (d1_now w)))"
proof (cases "checkRateLimit w db (hashString (sha256 w) (sender_token d))")
  case (Inl e)
  then have "fst (snd (handleSend w env db d)) = db" by (simp add: handleSend_store_error)
  then show ?thesis by (intro exI [of _ db]) simp
next
  case (Inr p)
  obtain allowed db1 where p: "p = (allowed, db1)" by (cases p)
  with Inr have c: "checkRateLimit w db (hashString (sha256 w) (sender_token d)) = Inr (allowed, db1)"
    by simp
  from handleSend_outcome [OF c, of env] obtain resp st pre where
    "handleSend w env db d =
       (resp,
        logSend w db1 (hashString (sha256 w) (sender_token d))
          (extractDomain (recipient_email d)) (context_tag d) st,
        pre @ [Logged (hashString (sha256 w) (sender_token d))
                 (extractDomain (recipient_email d)) (context_tag d) st])"
    by (elim exE conjE)
  then have db': "fst (snd (handleSend w env db d)) =
      logSend w db1 (hashString (sha256 w) (sender_token d))
        (extractDomain (recipient_email d)) (context_tag d) st"
    by simp
  have "logSend w db1 (hashString (sha256 w) (sender_token d))
        (extractDomain (recipient_email d)) (context_tag d) st = db1 \<or>
      logSend w db1 (hashString (sha256 w) (sender_token d))
        (extractDomain (recipient_email d)) (context_tag d) st =
      insertSend db1 (hashString (sha256 w) (sender_token d))
        (extractDomain (recipient_email d)) (context_tag d) st (d1_now w)"
    by (simp add: logSend_def split: option.split)
  with db' checkRateLimit_db [OF c] show ?thesis by metis
qed

lemma messageLogged_calm: "messageLogged calmWorld m k = [take 50 m]"
  by (simp add: messageLogged_def calmWorld_def ok_def verdictText_def candidateText_allowAnswer)

lemma sendEmail_calm: "sendEmail calmWorld r t m k"
  by (simp add: sendEmail_def calmWorld_def ok_def)

lemma gemini_auditDown: "gemini auditDownWorld = gemini calmWorld"
  and resend_auditDown: "resend auditDownWorld = resend calmWorld"
  and sha_auditDown: "sha256 auditDownWorld = sha256 calmWorld"
  by (simp_all add: auditDownWorld_def)

lemma fetch_auditDown:
  "fetch auditDownWorld testEnv emptyDb sendThanks =
     (jsonResponse Success 200,
      \<lparr>rate_limits = [\<lparr>rl_sender_hash = ''ab01'', rl_send_count = 1, rl_window_start = 1700000000\<rparr>],
        sends = []\<rparr>,
      [Hashed ''token-123'', AskedClassifier ''test-gemini-key'' ''Thank you'',
       ConsoleMessage ''Thank you'',
       Mailed ''test-resend-key'' (renderEmail ''recipient@example.com'' ''mentor'' ''Thank you''),
       Logged ''ab01'' ''example.com'' ''mentor'' Sent])"
proof -
  have f: "filterMessage auditDownWorld m k" for m k
    by (rule filterMessage_allowAnswer) (simp_all add: auditDownWorld_def calmWorld_def)
  have e: "sendEmail auditDownWorld r t m k" for r t m k
    using sendEmail_calm [of r t m k] by (simp add: sendEmail_def resend_auditDown)
  have ml: "messageLogged auditDownWorld m k = [take 50 m]" for m k
    by (simp add: messageLogged_def auditDownWorld_def calmWorld_def ok_def verdictText_def
        candidateText_allowAnswer)
  have h: "hashString (sha256 auditDownWorld) s = ''ab01''" for s
    by (simp add: sha_auditDown hash_calm)
  have c: "checkRateLimit auditDownWorld emptyDb ''ab01'' =
      Inr (True, \<lparr>rate_limits = [\<lparr>rl_sender_hash = ''ab01'', rl_send_count = 1,
                     rl_window_start = 1700000000\<rparr>], sends = []\<rparr>)"
    by (simp add: checkRateLimit_def selectRateLimit_def insertRateLimit_def emptyDb_def
        auditDownWorld_def calmWorld_def)
  have d: "extractDomain ''recipient@example.com'' = ''example.com''"
    by (simp add: extractDomain_def toLowerCase_def toLowerChar_def lowerLetters_def
        upperLetters_def)
  have l: "logSend auditDownWorld db hh dd tt st = db" for db hh dd tt st
    by (simp add: logSend_def auditDownWorld_def)
  show ?thesis
    by (simp add: fetch_def sendThanks_def validateRequest_thanks handleSend_def Let_def
        h c d f e l ml testEnv_def)
qed

lemma fetch_storeDown:
  "fetch storeDownWorld testEnv emptyDb sendThanks =
     (errorResponse server_error ''An unexpected error occurred: D1_ERROR'' 500, emptyDb,
      [Hashed ''token-123''])"
proof -
  have c: "checkRateLimit storeDownWorld emptyDb hh = Inl ''D1_ERROR''" for hh
    by (simp add: checkRateLimit_def storeDownWorld_def)
  show ?thesis
    by (simp add: fetch_def sendThanks_def validateRequest_thanks handleSend_def Let_def c)
qed

lemma fetch_calm:
  "fetch calmWorld testEnv emptyDb sendThanks =
     (jsonResponse Success 200,
      \<lparr>rate_limits = [\<lparr>rl_sender_hash = ''ab01'', rl_send_count = 1, rl_window_start = 1700000000\<rparr>],
        sends = [\<lparr>s_sender_hash = ''ab01'', s_recipient_domain = ''example.com'',
                  s_context_tag = ''mentor'', s_status = Sent, s_created_at = 1700000000\<rparr>]\<rparr>,
      [Hashed ''token-123'', AskedClassifier ''test-gemini-key'' ''Thank you'',
       ConsoleMessage ''Thank you'',
       Mailed ''test-resend-key'' (renderEmail ''recipient@example.com'' ''mentor'' ''Thank you''),
       Logged ''ab01'' ''example.com'' ''mentor'' Sent])"
proof -
  have c: "checkRateLimit calmWorld emptyDb ''ab01'' =
      Inr (True, \<lparr>rate_limits = [\<lparr>rl_sender_hash = ''ab01'', rl_send_count = 1,
                     rl_window_start = 1700000000\<rparr>], sends = []\<rparr>)"
    by (simp add: checkRateLimit_def selectRateLimit_def insertRateLimit_def emptyDb_def
        calmWorld_def)
  have d: "extractDomain ''recipient@example.com'' = ''example.com''"
    by (simp add: extractDomain_def toLowerCase_def toLowerChar_def lowerLetters_def
        upperLetters_def)
  have l: "logSend calmWorld db hh dd tt st = insertSend db hh dd tt st 1700000000" for db hh dd tt st
    by (simp add: logSend_def calmWorld_def)
  show ?thesis
    by (simp add: fetch_def sendThanks_def validateRequest_thanks handleSend_def Let_def
        hash_calm c d filterMessage_calm sendEmail_calm messageLogged_calm l testEnv_def
        insertSend_def)
qed

lemma filterMessage_mailDown: "filterMessage mailDownWorld m k"
  by (rule filterMessage_allowAnswer) (simp_all add: mailDownWorld_def calmWorld_def)

lemma sendEmail_mailDown: "\<not> sendEmail mailDownWorld r t m k"
  by (simp add: sendEmail_def mailDownWorld_def ok_def)

lemma sha_examples:
  "sha256 rejectingWorld = sha256 calmWorld" "sha256 mailDownWorld = sha256 calmWorld"
  by (simp_all add: rejectingWorld_def mailDownWorld_def)

lemma checkRateLimit_examples:
  "checkRateLimit calmWorld emptyDb ''ab01'' =
     Inr (True, \<lparr>rate_limits = [\<lparr>rl_sender_hash = ''ab01'', rl_send_count = 1,
                    rl_window_start = 1700000000\<rparr>], sends = []\<rparr>)"
  "checkRateLimit rejectingWorld emptyDb ''ab01'' =
     Inr (True, \<lparr>rate_limits = [\<lparr>rl_sender_hash = ''ab01'', rl_send_count = 1,
                    rl_window_start = 1700000000\<rparr>], sends = []\<rparr>)"
  "checkRateLimit mailDownWorld emptyDb ''ab01'' =
     Inr (True, \<lparr>rate_limits = [\<lparr>rl_sender_hash = ''ab01'', rl_send_count = 1,
                    rl_window_start = 1700000000\<rparr>], sends = []\<rparr>)"
  "checkRateLimit calmWorld cappedDb ''ab01'' = Inr (False, cappedDb)"
  by (simp_all add: checkRateLimit_def selectRateLimit_def insertRateLimit_def emptyDb_def
      cappedDb_def calmWorld_def rejectingWorld_def mailDownWorld_def
      RATE_LIMIT_WINDOW_HOURS_def MAX_SENDS_PER_WINDOW_def)

text \<open>
  C4, as the specification states it, fails. A request that passes validation, is
  allowed, filtered and delivered is answered 200, and when the database refuses the
  insert into \<open>sends\<close> no audit record is written: \<open>logSend\<close> swallows the error. A
  request that passes validation and meets a database that refuses the statements of
  the rate limiter ends with the answer 500, and no audit write is even attempted.
\<close>

theorem audit_record_counterexample:
  "validateRequest thanks =
     Inr \<lparr>message = ''Thank you'', recipient_email = ''recipient@example.com'',
          context_tag = ''mentor'', sender_token = ''token-123''\<rparr> \<and>
   fst (fetch auditDownWorld testEnv emptyDb sendThanks) = jsonResponse Success 200 \<and>
   sends (fst (snd (fetch auditDownWorld testEnv emptyDb sendThanks))) = [] \<and>
   status (fst (fetch storeDownWorld testEnv emptyDb sendThanks)) = 500 \<and>
   auditWrites (snd (snd (fetch storeDownWorld testEnv emptyDb sendThanks))) = [] \<and>
   sends (fst (snd (fetch storeDownWorld testEnv emptyDb sendThanks))) = []"
proof -
  have "sends emptyDb = []" by (simp add: emptyDb_def)
  then show ?thesis
    by (simp add: validateRequest_thanks fetch_auditDown fetch_storeDown errorResponse_def
        jsonResponse_def)
qed

text \<open>
  C4, amended. For a request to POST \<open>/send\<close>: when validation fails (the body is not
  JSON, or the validator rejects it) nothing is hashed, no audit write is attempted and
  the database is untouched. When validation passes and the rate limiter throws, the
  answer is 500 \<open>server_error\<close> and no audit write is attempted. When validation passes
  and the rate limiter answers, the sender token is hashed once and exactly one audit
  write is attempted, with the status of the step that ended the request: \<open>rejected\<close>
  and the answer 429 \<open>rate_limited\<close> when the rate limiter denies; \<open>rejected\<close> and the
  answer 400 \<open>message_rejected\<close> when the rate limiter allows and \<open>filterMessage\<close>
  denies; \<open>error\<close> and the answer 500 \<open>server_error\<close> when both allow and \<open>sendEmail\<close>
  fails; \<open>sent\<close> and the answer 200 when all three succeed. The write appends exactly
  one record with that status, the hashed sender, the domain of the recipient and the
  tag when the database accepts the insert, and none when the database refuses it.
\<close>

theorem audit_once:
  assumes "http_method r = ''POST''" "pathname r = ''/send''"
  shows
    \<open>(json r = None \<longrightarrow> snd (fetch w env db r) = (db, [])) \<and>
     (\<forall>b reason. json r = Some b \<and> validateRequest b = Inl reason \<longrightarrow>
        snd (fetch w env db r) = (db, [])) \<and>
     (\<forall>b d e. json r = Some b \<and> validateRequest b = Inr d \<and>
          checkRateLimit w db (hashString (sha256 w) (sender_token d)) = Inl e \<longrightarrow>
        fetch w env db r =
          (errorResponse server_error (''An unexpected error occurred: '' @ e) 500, db,
           [Hashed (sender_token d)])) \<and>
     (\<forall>b d allowed db1. json r = Some b \<and> validateRequest b = Inr d \<and>
          checkRateLimit w db (hashString (sha256 w) (sender_token d)) = Inr (allowed, db1) \<longrightarrow>
        (\<exists>st. auditWrites (snd (snd (fetch w env db r))) =
                 [(hashString (sha256 w) (sender_token d), extractDomain (recipient_email d),
                   context_tag d, st)] \<and>
              hashings (snd (snd (fetch w env db r))) = [sender_token d] \<and>
              auditStatusFor (fst (fetch w env db r)) = Some st \<and>
              (status (fst (fetch w env db r)) = 429 \<and> st = Rejected \<or>
               status (fst (fetch w env db r)) = 400 \<and> st = Rejected \<or>
               status (fst (fetch w env db r)) = 500 \<and> st = Error \<or>
               status (fst (fetch w env db r)) = 200 \<and> st = Sent) \<and>
              (\<not> allowed \<and> fst (fetch w env db r) =
                   errorResponse rate_limited
                     ''You\'ve sent too many messages today. Please try again tomorrow.'' 429 \<and>
                 st = Rejected \<or>
               allowed \<and> \<not> filterMessage w (message d) (GEMINI_API_KEY env) \<and> fst (fetch w env db r) =
                   errorResponse message_rejected
                     ''This message doesn\'t appear to be expressing gratitude.'' 400 \<and>
                 st = Rejected \<or>
               allowed \<and> filterMessage w (message d) (GEMINI_API_KEY env) \<and>
                 \<not> sendEmail w (recipient_email d) (context_tag d) (message d)
                      (RESEND_API_KEY env) \<and> fst (fetch w env db r) =
                   errorResponse server_error
                     ''Failed to send email. Please try again later.'' 500 \<and>
                 st = Error \<or>
               allowed \<and> filterMessage w (message d) (GEMINI_API_KEY env) \<and>
                 sendEmail w (recipient_email d) (context_tag d) (message d)
                   (RESEND_API_KEY env) \<and> fst (fetch w env db r) = jsonResponse Success 200 \<and>
                 st = Sent) \<and>
              sends (fst (snd (fetch w env db r))) =
                (if d1_error w InsertSend = None
                 then sends db @
                   [\<lparr>s_sender_hash = hashString (sha256 w) (sender_token d),
                     s_recipient_domain = extractDomain (recipient_email d),
                     s_context_tag = context_tag d, s_status = st, s_created_at = d1_now w\<rparr>]
                 else sends db)))\<close>
proof (intro conjI allI impI)
  assume "json r = None"
  with assms show "snd (fetch w env db r) = (db, [])" by (simp add: fetch_invalid_json)
next
  fix b reason
  assume "json r = Some b \<and> validateRequest b = Inl reason"
  with assms show "snd (fetch w env db r) = (db, [])" by (simp add: fetch_invalid)
next
  fix b d e
  assume a: "json r = Some b \<and> validateRequest b = Inr d \<and>
    checkRateLimit w db (hashString (sha256 w) (sender_token d)) = Inl e"
  with assms have "fetch w env db r = handleSend w env db d" by (simp add: fetch_valid)
  with a show "fetch w env db r =
      (errorResponse server_error (''An unexpected error occurred: '' @ e) 500, db,
       [Hashed (sender_token d)])"
    by (simp add: handleSend_store_error)
next
  fix b d allowed db1
  assume a: "json r = Some b \<and> validateRequest b = Inr d \<and>
    checkRateLimit w db (hashString (sha256 w) (sender_token d)) = Inr (allowed, db1)"
  with assms have f: "fetch w env db r = handleSend w env db d" by (simp add: fetch_valid)
  from a have c: "checkRateLimit w db (hashString (sha256 w) (sender_token d)) = Inr (allowed, db1)"
    by simp
  from handleSend_outcome [OF c, of env] obtain resp st pre where
    h: "handleSend w env db d =
         (resp,
          logSend w db1 (hashString (sha256 w) (sender_token d))
            (extractDomain (recipient_email d)) (context_tag d) st,
          pre @ [Logged (hashString (sha256 w) (sender_token d))
                   (extractDomain (recipient_email d)) (context_tag d) st])"
    and pre: "auditWrites pre = []" "hashings pre = [sender_token d]"
    and st: "auditStatusFor resp = Some st"
    and out: "status resp = 429 \<and> st = Rejected \<and> \<not> allowed \<or>
            status resp = 400 \<and> st = Rejected \<and> allowed \<or>
            status resp = 500 \<and> st = Error \<and> allowed \<or>
            status resp = 200 \<and> st = Sent \<and> allowed"
    and steps: \<open>(\<not> allowed \<and> resp =
                 errorResponse rate_limited
                   ''You\'ve sent too many messages today. Please try again tomorrow.'' 429 \<and>
               st = Rejected \<or>
             allowed \<and> \<not> filterMessage w (message d) (GEMINI_API_KEY env) \<and> resp =
                 errorResponse message_rejected
                   ''This message doesn\'t appear to be expressing gratitude.'' 400 \<and>
               st = Rejected \<or>
             allowed \<and> filterMessage w (message d) (GEMINI_API_KEY env) \<and>
               \<not> sendEmail w (recipient_email d) (context_tag d) (message d)
                    (RESEND_API_KEY env) \<and> resp =
                 errorResponse server_error
                   ''Failed to send email. Please try again later.'' 500 \<and>
               st = Error \<or>
             allowed \<and> filterMessage w (message d) (GEMINI_API_KEY env) \<and>
               sendEmail w (recipient_email d) (context_tag d) (message d)
                 (RESEND_API_KEY env) \<and> resp = jsonResponse Success 200 \<and>
               st = Sent)\<close>
    by (elim exE conjE)
  have fr: "fst (fetch w env db r) = resp" by (simp add: f h)
  have aw: "auditWrites (xs @ [Logged hh dd tt ss]) = auditWrites xs @ [(hh, dd, tt, ss)]"
    for xs hh dd tt ss
    by (simp add: auditWrites_append)
  have hs: "hashings (xs @ [Logged hh dd tt ss]) = hashings xs" for xs hh dd tt ss
    by (simp add: hashings_append)
  have sd: "sends db1 = sends db" using c by (rule checkRateLimit_sends)
  have 1: "auditWrites (snd (snd (fetch w env db r))) =
      [(hashString (sha256 w) (sender_token d), extractDomain (recipient_email d),
        context_tag d, st)]"
    by (simp add: f h aw pre)
  have 2: "hashings (snd (snd (fetch w env db r))) = [sender_token d]"
    by (simp add: f h hs pre)
  have 3: "auditStatusFor (fst (fetch w env db r)) = Some st"
    using st by (simp add: f h)
  have 4: "status (fst (fetch w env db r)) = 429 \<and> st = Rejected \<or>
      status (fst (fetch w env db r)) = 400 \<and> st = Rejected \<or>
      status (fst (fetch w env db r)) = 500 \<and> st = Error \<or>
      status (fst (fetch w env db r)) = 200 \<and> st = Sent"
    using out by (auto simp: f h)
  have 6: \<open>(\<not> allowed \<and> fst (fetch w env db r) =
                 errorResponse rate_limited
                   ''You\'ve sent too many messages today. Please try again tomorrow.'' 429 \<and>
               st = Rejected \<or>
             allowed \<and> \<not> filterMessage w (message d) (GEMINI_API_KEY env) \<and> fst (fetch w env db r) =
                 errorResponse message_rejected
                   ''This message doesn\'t appear to be expressing gratitude.'' 400 \<and>
               st = Rejected \<or>
             allowed \<and> filterMessage w (message d) (GEMINI_API_KEY env) \<and>
               \<not> sendEmail w (recipient_email d) (context_tag d) (message d)
                    (RESEND_API_KEY env) \<and> fst (fetch w env db r) =
                 errorResponse server_error
                   ''Failed to send email. Please try again later.'' 500 \<and>
               st = Error \<or>
             allowed \<and> filterMessage w (message d) (GEMINI_API_KEY env) \<and>
               sendEmail w (recipient_email d) (context_tag d) (message d)
                 (RESEND_API_KEY env) \<and> fst (fetch w env db r) = jsonResponse Success 200 \<and>
               st = Sent)\<close>
    unfolding fr by (rule steps)
  have 5: "sends (fst (snd (fetch w env db r))) =
      (if d1_error w InsertSend = None
       then sends db @
         [\<lparr>s_sender_hash = hashString (sha256 w) (sender_token d),
           s_recipient_domain = extractDomain (recipient_email d),
           s_context_tag = context_tag d, s_status = st, s_created_at = d1_now w\<rparr>]
       else sends db)"
    by (simp add: f h sends_logSend sd)
  from 1 2 3 4 6 5 show \<open>\<exists>st. auditWrites (snd (snd (fetch w env db r))) =
                 [(hashString (sha256 w) (sender_token d), extractDomain (recipient_email d),
                   context_tag d, st)] \<and>
              hashings (snd (snd (fetch w env db r))) = [sender_token d] \<and>
              auditStatusFor (fst (fetch w env db r)) = Some st \<and>
              (status (fst (fetch w env db r)) = 429 \<and> st = Rejected \<or>
               status (fst (fetch w env db r)) = 400 \<and> st = Rejected \<or>
               status (fst (fetch w env db r)) = 500 \<and> st = Error \<or>
               status (fst (fetch w env db r)) = 200 \<and> st = Sent) \<and>
              (\<not> allowed \<and> fst (fetch w env db r) =
                   errorResponse rate_limited
                     ''You\'ve sent too many messages today. Please try again tomorrow.'' 429 \<and>
                 st = Rejected \<or>
               allowed \<and> \<not> filterMessage w (message d) (GEMINI_API_KEY env) \<and> fst (fetch w env db r) =
                   errorResponse message_rejected
                     ''This message doesn\'t appear to be expressing gratitude.'' 400 \<and>
                 st = Rejected \<or>
               allowed \<and> filterMessage w (message d) (GEMINI_API_KEY env) \<and>
                 \<not> sendEmail w (recipient_email d) (context_tag d) (message d)
                      (RESEND_API_KEY env) \<and> fst (fetch w env db r) =
                   errorResponse server_error
                     ''Failed to send email. Please try again later.'' 500 \<and>
                 st = Error \<or>
               allowed \<and> filterMessage w (message d) (GEMINI_API_KEY env) \<and>
                 sendEmail w (recipient_email d) (context_tag d) (message d)
                   (RESEND_API_KEY env) \<and> fst (fetch w env db r) = jsonResponse Success 200 \<and>
                 st = Sent) \<and>
              sends (fst (snd (fetch w env db r))) =
                (if d1_error w InsertSend = None
                 then sends db @
                   [\<lparr>s_sender_hash = hashString (sha256 w) (sender_token d),
                     s_recipient_domain = extractDomain (recipient_email d),
                     s_context_tag = context_tag d, s_status = st, s_created_at = d1_now w\<rparr>]
                 else sends db)\<close>
    by (intro exI [of _ st] conjI)
qed

theorem audit_once_witness:
  \<open>fst (fetch calmWorld testEnv emptyDb sendThanks) = jsonResponse Success 200 \<and>
   auditWrites (snd (snd (fetch calmWorld testEnv emptyDb sendThanks))) =
     [(''ab01'', ''example.com'', ''mentor'', Sent)] \<and>
   sends (fst (snd (fetch calmWorld testEnv emptyDb sendThanks))) =
     [\<lparr>s_sender_hash = ''ab01'', s_recipient_domain = ''example.com'',
       s_context_tag = ''mentor'', s_status = Sent, s_created_at = 1700000000\<rparr>] \<and>
   fst (fetch calmWorld testEnv cappedDb sendThanks) =
     errorResponse rate_limited
       ''You\'ve sent too many messages today. Please try again tomorrow.'' 429 \<and>
   auditWrites (snd (snd (fetch calmWorld testEnv cappedDb sendThanks))) =
     [(''ab01'', ''example.com'', ''mentor'', Rejected)] \<and>
   fst (fetch rejectingWorld testEnv emptyDb sendThanks) =
     errorResponse message_rejected
       ''This message doesn\'t appear to be expressing gratitude.'' 400 \<and>
   auditWrites (snd (snd (fetch rejectingWorld testEnv emptyDb sendThanks))) =
     [(''ab01'', ''example.com'', ''mentor'', Rejected)] \<and>
   fst (fetch mailDownWorld testEnv emptyDb sendThanks) =
     errorResponse server_error ''Failed to send email. Please try again later.'' 500 \<and>
   auditWrites (snd (snd (fetch mailDownWorld testEnv emptyDb sendThanks))) =
     [(''ab01'', ''example.com'', ''mentor'', Error)] \<and>
   snd (fetch calmWorld testEnv emptyDb
          \<lparr>http_method = ''POST'', pathname = ''/send'', json = None\<rparr>) = (emptyDb, [])\<close>
proof -
  let ?d = "\<lparr>message = ''Thank you'', recipient_email = ''recipient@example.com'',
             context_tag = ''mentor'', sender_token = ''token-123''\<rparr>"
  have m: "http_method sendThanks = ''POST''" and p: "pathname sendThanks = ''/send''"
    by (simp_all add: sendThanks_def)
  have dm: "extractDomain ''recipient@example.com'' = ''example.com''"
    by (simp add: extractDomain_def toLowerCase_def toLowerChar_def lowerLetters_def
        upperLetters_def)
  have step:
    \<open>fst (fetch w testEnv db sendThanks) =
       (if \<not> allowed then
          errorResponse rate_limited
            ''You\'ve sent too many messages today. Please try again tomorrow.'' 429
        else if \<not> filterMessage w ''Thank you'' ''test-gemini-key'' then
          errorResponse message_rejected
            ''This message doesn\'t appear to be expressing gratitude.'' 400
        else if \<not> sendEmail w ''recipient@example.com'' ''mentor'' ''Thank you''
                    ''test-resend-key'' then
          errorResponse server_error ''Failed to send email. Please try again later.'' 500
        else jsonResponse Success 200) \<and>
     auditWrites (snd (snd (fetch w testEnv db sendThanks))) =
       [(''ab01'', ''example.com'', ''mentor'',
         if \<not> allowed \<or> \<not> filterMessage w ''Thank you'' ''test-gemini-key'' then Rejected
         else if \<not> sendEmail w ''recipient@example.com'' ''mentor'' ''Thank you''
                     ''test-resend-key'' then Error
         else Sent)] \<and>
     sends (fst (snd (fetch w testEnv db sendThanks))) =
       (if d1_error w InsertSend = None
        then sends db @
          [\<lparr>s_sender_hash = ''ab01'', s_recipient_domain = ''example.com'',
            s_context_tag = ''mentor'',
            s_status =
              (if \<not> allowed \<or> \<not> filterMessage w ''Thank you'' ''test-gemini-key''
               then Rejected
               else if \<not> sendEmail w ''recipient@example.com'' ''mentor'' ''Thank you''
                           ''test-resend-key'' then Error
               else Sent),
            s_created_at = d1_now w\<rparr>]
        else sends db)\<close>
    if sha: "sha256 w = sha256 calmWorld"
      and c: "checkRateLimit w db ''ab01'' = Inr (allowed, db1)"
    for w db allowed db1
  proof -
    have j: "json sendThanks = Some thanks \<and> validateRequest thanks = Inr ?d \<and>
        checkRateLimit w db (hashString (sha256 w) (sender_token ?d)) = Inr (allowed, db1)"
      by (simp add: sendThanks_def validateRequest_thanks sha hash_calm c)
    from audit_once [OF m p, of w testEnv db, THEN conjunct2, THEN conjunct2, THEN conjunct2,
        rule_format, OF j]
    obtain st where
      a: "auditWrites (snd (snd (fetch w testEnv db sendThanks))) =
            [(hashString (sha256 w) (sender_token ?d),
              extractDomain (recipient_email ?d), context_tag ?d, st)]"
      and o: \<open>\<not> allowed \<and> fst (fetch w testEnv db sendThanks) =
                 errorResponse rate_limited
                   ''You\'ve sent too many messages today. Please try again tomorrow.'' 429 \<and>
               st = Rejected \<or>
             allowed \<and> \<not> filterMessage w (message ?d) (GEMINI_API_KEY testEnv) \<and>
               fst (fetch w testEnv db sendThanks) =
                 errorResponse message_rejected
                   ''This message doesn\'t appear to be expressing gratitude.'' 400 \<and>
               st = Rejected \<or>
             allowed \<and> filterMessage w (message ?d) (GEMINI_API_KEY testEnv) \<and>
               \<not> sendEmail w (recipient_email ?d) (context_tag ?d) (message ?d)
                    (RESEND_API_KEY testEnv) \<and>
               fst (fetch w testEnv db sendThanks) =
                 errorResponse server_error
                   ''Failed to send email. Please try again later.'' 500 \<and>
               st = Error \<or>
             allowed \<and> filterMessage w (message ?d) (GEMINI_API_KEY testEnv) \<and>
               sendEmail w (recipient_email ?d) (context_tag ?d) (message ?d)
                 (RESEND_API_KEY testEnv) \<and>
               fst (fetch w testEnv db sendThanks) = jsonResponse Success 200 \<and>
               st = Sent\<close>
      and s: "sends (fst (snd (fetch w testEnv db sendThanks))) =
            (if d1_error w InsertSend = None
             then sends db @
               [\<lparr>s_sender_hash = hashString (sha256 w) (sender_token ?d),
                 s_recipient_domain = extractDomain (recipient_email ?d),
                 s_context_tag = context_tag ?d, s_status = st, s_created_at = d1_now w\<rparr>]
             else sends db)"
      by blast
    let ?st = "if \<not> allowed \<or> \<not> filterMessage w ''Thank you'' ''test-gemini-key'' then Rejected
         else if \<not> sendEmail w ''recipient@example.com'' ''mentor'' ''Thank you''
                     ''test-resend-key'' then Error
         else Sent"
    from o have st: "st = ?st" by (auto simp: testEnv_def)
    from o have 1: \<open>fst (fetch w testEnv db sendThanks) =
       (if \<not> allowed then
          errorResponse rate_limited
            ''You\'ve sent too many messages today. Please try again tomorrow.'' 429
        else if \<not> filterMessage w ''Thank you'' ''test-gemini-key'' then
          errorResponse message_rejected
            ''This message doesn\'t appear to be expressing gratitude.'' 400
        else if \<not> sendEmail w ''recipient@example.com'' ''mentor'' ''Thank you''
                    ''test-resend-key'' then
          errorResponse server_error ''Failed to send email. Please try again later.'' 500
        else jsonResponse Success 200)\<close>
      by (auto simp: testEnv_def)
    from a have 2: "auditWrites (snd (snd (fetch w testEnv db sendThanks))) =
        [(''ab01'', ''example.com'', ''mentor'', ?st)]"
      unfolding st by (simp add: sha hash_calm dm)
    from s have 3: "sends (fst (snd (fetch w testEnv db sendThanks))) =
       (if d1_error w InsertSend = None
        then sends db @
          [\<lparr>s_sender_hash = ''ab01'', s_recipient_domain = ''example.com'',
            s_context_tag = ''mentor'', s_status = ?st, s_created_at = d1_now w\<rparr>]
        else sends db)"
      unfolding st by (simp add: sha hash_calm dm)
    from 1 2 3 show ?thesis by (intro conjI)
  qed
  have q: "d1_error calmWorld InsertSend = None" "d1_now calmWorld = 1700000000"
    "sends emptyDb = []"
    by (simp_all add: calmWorld_def emptyDb_def)
  note sent = step [OF refl checkRateLimit_examples(1)]
  note limited = step [OF refl checkRateLimit_examples(4)]
  note filtered = step [OF sha_examples(1) checkRateLimit_examples(2)]
  note undelivered = step [OF sha_examples(2) checkRateLimit_examples(3)]
  have 1: "fst (fetch calmWorld testEnv emptyDb sendThanks) = jsonResponse Success 200"
    using sent [THEN conjunct1] by (simp add: filterMessage_calm sendEmail_calm)
  have 2: "auditWrites (snd (snd (fetch calmWorld testEnv emptyDb sendThanks))) =
      [(''ab01'', ''example.com'', ''mentor'', Sent)]"
    using sent [THEN conjunct2, THEN conjunct1] by (simp add: filterMessage_calm sendEmail_calm)
  have 3: "sends (fst (snd (fetch calmWorld testEnv emptyDb sendThanks))) =
     [\<lparr>s_sender_hash = ''ab01'', s_recipient_domain = ''example.com'',
       s_context_tag = ''mentor'', s_status = Sent, s_created_at = 1700000000\<rparr>]"
    using sent [THEN conjunct2, THEN conjunct2]
    by (simp add: filterMessage_calm sendEmail_calm q)
  have 4: \<open>fst (fetch calmWorld testEnv cappedDb sendThanks) =
     errorResponse rate_limited
       ''You\'ve sent too many messages today. Please try again tomorrow.'' 429\<close>
    using limited [THEN conjunct1] by simp
  have 5: "auditWrites (snd (snd (fetch calmWorld testEnv cappedDb sendThanks))) =
      [(''ab01'', ''example.com'', ''mentor'', Rejected)]"
    using limited [THEN conjunct2, THEN conjunct1] by simp
  have 6: \<open>fst (fetch rejectingWorld testEnv emptyDb sendThanks) =
     errorResponse message_rejected
       ''This message doesn\'t appear to be expressing gratitude.'' 400\<close>
    using filtered [THEN conjunct1] by (simp add: filterMessage_rejecting)
  have 7: "auditWrites (snd (snd (fetch rejectingWorld testEnv emptyDb sendThanks))) =
      [(''ab01'', ''example.com'', ''mentor'', Rejected)]"
    using filtered [THEN conjunct2, THEN conjunct1] by (simp add: filterMessage_rejecting)
  have 8: "fst (fetch mailDownWorld testEnv emptyDb sendThanks) =
     errorResponse server_error ''Failed to send email. Please try again later.'' 500"
    using undelivered [THEN conjunct1] by (simp add: filterMessage_mailDown sendEmail_mailDown)
  have 9: "auditWrites (snd (snd (fetch mailDownWorld testEnv emptyDb sendThanks))) =
      [(''ab01'', ''example.com'', ''mentor'', Error)]"
    using undelivered [THEN conjunct2, THEN conjunct1]
    by (simp add: filterMessage_mailDown sendEmail_mailDown)
  have 10: "snd (fetch calmWorld testEnv emptyDb
          \<lparr>http_method = ''POST'', pathname = ''/send'', json = None\<rparr>) = (emptyDb, [])"
    using audit_once [of "\<lparr>http_method = ''POST'', pathname = ''/send'', json = None\<rparr>"
        calmWorld testEnv emptyDb, THEN conjunct1]
    by simp
  from 1 2 3 4 5 6 7 8 9 10 show ?thesis by (intro conjI)
qed

text \<open>
  C1. The text of the message is never written to the database. Two requests that pass
  validation and differ in nothing but the message leave the same database whenever the
  filter gives both the same verdict and the delivery of both has the same result:
  the message has no way into the database but through the status. What a request that
  passes validation does to the database is at most one write of the rate limiter
  (insert, reset or increment of the row of the hashed sender, with the time of the
  database) and at most one row of the audit log, made of the hashed sender, the domain
  of the recipient, the tag, a status and the time of the database.
\<close>

theorem message_not_persisted:
  assumes "http_method r = ''POST''" "pathname r = ''/send''" "json r = Some b"
    and "validateRequest b = Inr d"
    and "http_method r' = ''POST''" "pathname r' = ''/send''" "json r' = Some b'"
    and "validateRequest b' = Inr d'"
    and "recipient_email d' = recipient_email d" "context_tag d' = context_tag d"
    and "sender_token d' = sender_token d"
    and "filterMessage w (message d') (GEMINI_API_KEY env) =
         filterMessage w (message d) (GEMINI_API_KEY env)"
    and "sendEmail w (recipient_email d') (context_tag d') (message d') (RESEND_API_KEY env) =
         sendEmail w (recipient_email d) (context_tag d) (message d) (RESEND_API_KEY env)"
  shows
    "fst (snd (fetch w env db r')) = fst (snd (fetch w env db r)) \<and>
     (\<exists>dbx. (dbx = db \<or>
              dbx = insertRateLimit db (hashString (sha256 w) (sender_token d)) (d1_now w) \<or>
              dbx = resetRateLimit db (hashString (sha256 w) (sender_token d)) (d1_now w) \<or>
              dbx = incrementRateLimit db (hashString (sha256 w) (sender_token d))) \<and>
             (fst (snd (fetch w env db r)) = dbx \<or>
              (\<exists>st. fst (snd (fetch w env db r)) =
                     insertSend dbx (hashString (sha256 w) (sender_token d))
                       (extractDomain (recipient_email d)) (context_tag d) st (d1_now w))))"
proof -
  have f: "fetch w env db r = handleSend w env db d"
    using assms(1-4) by (rule fetch_valid)
  have f': "fetch w env db r' = handleSend w env db d'"
    using assms(5-8) by (rule fetch_valid)
  have "fst (snd (fetch w env db r')) = fst (snd (fetch w env db r))"
    unfolding f f' using assms(9-13) by (rule handleSend_db_eq)
  moreover have "\<exists>dbx. (dbx = db \<or>
              dbx = insertRateLimit db (hashString (sha256 w) (sender_token d)) (d1_now w) \<or>
              dbx = resetRateLimit db (hashString (sha256 w) (sender_token d)) (d1_now w) \<or>
              dbx = incrementRateLimit db (hashString (sha256 w) (sender_token d))) \<and>
             (fst (snd (fetch w env db r)) = dbx \<or>
              (\<exists>st. fst (snd (fetch w env db r)) =
                     insertSend dbx (hashString (sha256 w) (sender_token d))
                       (extractDomain (recipient_email d)) (context_tag d) st (d1_now w)))"
    unfolding f by (rule handleSend_db_shape)
  ultimately show ?thesis by (rule conjI)
qed

theorem message_not_persisted_witness:
  "validateRequest thanks =
     Inr \<lparr>message = ''Thank you'', recipient_email = ''recipient@example.com'',
          context_tag = ''mentor'', sender_token = ''token-123''\<rparr> \<and>
   validateRequest thanksAgain =
     Inr \<lparr>message = ''You changed my life'', recipient_email = ''recipient@example.com'',
          context_tag = ''mentor'', sender_token = ''token-123''\<rparr> \<and>
   fst (snd (fetch calmWorld testEnv emptyDb sendThanksAgain)) =
     fst (snd (fetch calmWorld testEnv emptyDb sendThanks)) \<and>
   fst (snd (fetch calmWorld testEnv emptyDb sendThanks)) =
     \<lparr>rate_limits = [\<lparr>rl_sender_hash = ''ab01'', rl_send_count = 1, rl_window_start = 1700000000\<rparr>],
      sends = [\<lparr>s_sender_hash = ''ab01'', s_recipient_domain = ''example.com'',
                s_context_tag = ''mentor'', s_status = Sent, s_created_at = 1700000000\<rparr>]\<rparr>"
proof -
  have 1: "http_method sendThanks = ''POST''" "pathname sendThanks = ''/send''"
    "json sendThanks = Some thanks"
    by (simp_all add: sendThanks_def)
  have 2: "http_method sendThanksAgain = ''POST''" "pathname sendThanksAgain = ''/send''"
    "json sendThanksAgain = Some thanksAgain"
    by (simp_all add: sendThanksAgain_def)
  have "fst (snd (fetch calmWorld testEnv emptyDb sendThanksAgain)) =
      fst (snd (fetch calmWorld testEnv emptyDb sendThanks))"
    using message_not_persisted [OF 1 validateRequest_thanks 2 validateRequest_thanksAgain,
        of calmWorld testEnv emptyDb]
    by (simp add: filterMessage_calm sendEmail_calm)
  moreover have "fst (snd (fetch calmWorld testEnv emptyDb sendThanks)) =
     \<lparr>rate_limits = [\<lparr>rl_sender_hash = ''ab01'', rl_send_count = 1, rl_window_start = 1700000000\<rparr>],
      sends = [\<lparr>s_sender_hash = ''ab01'', s_recipient_domain = ''example.com'',
                s_context_tag = ''mentor'', s_status = Sent, s_created_at = 1700000000\<rparr>]\<rparr>"
    by (simp add: fetch_calm)
  ultimately show ?thesis
    using validateRequest_thanks validateRequest_thanksAgain by (intro conjI)
qed

end
